theory Spec2Isabelle
  imports Complex_Main
begin

section \<open>Values, errors and arrays\<close>

text \<open>
  The calibration-solution store \<^verbatim>\<open>CalFits\<close> (\<^verbatim>\<open>src/mwa_qa/read_calfits.py\<close>) and
  the metrics engine \<^verbatim>\<open>CalMetrics\<close> (\<^verbatim>\<open>src/mwa_qa/cal_metrics.py\<close>) are embedded as
  HOL functions. A Python exception is a value \<open>Inl e\<close> of a sum type; the exception
  classes are the ones the interpreter and NumPy raise at the modelled statements.
\<close>

datatype error =
    IndexError
  | AttributeError
  | AssertionError
  | LinAlgError
  | ValueError
  | TypeError

text \<open>
  A complex array entry is either NaN (\<open>None\<close>: what \<^verbatim>\<open>np.isnan\<close> answers True
  for) or a finite complex number. Arithmetic on finite entries is exact: rounding,
  overflow and signed zeros are not represented. NaN is absorbing, as in IEEE 754.
\<close>

type_synonym cfloat = "complex option"

definition cadd :: "cfloat \<Rightarrow> cfloat \<Rightarrow> cfloat" where
  "cadd x y = (case x of None \<Rightarrow> None | Some a \<Rightarrow> (case y of None \<Rightarrow> None | Some b \<Rightarrow> Some (a + b)))"

definition cmul :: "cfloat \<Rightarrow> cfloat \<Rightarrow> cfloat" where
  "cmul x y = (case x of None \<Rightarrow> None | Some a \<Rightarrow> (case y of None \<Rightarrow> None | Some b \<Rightarrow> Some (a * b)))"

definition np_conj :: "cfloat \<Rightarrow> cfloat" where
  "np_conj x = map_option cnj x"

text \<open>
  Sequence indexing of Python and NumPy along one axis of length \<open>n\<close>: a negative
  index counts from the end, anything outside \<open>-n \<le> i < n\<close> raises IndexError.
\<close>

definition py_index :: "nat \<Rightarrow> int \<Rightarrow> error + nat" where
  "py_index n i =
     (if 0 \<le> i \<and> i < int n then Inr (nat i)
      else if i < 0 \<and> - int n \<le> i then Inr (nat (int n + i))
      else Inl IndexError)"

definition py_get :: "'a list \<Rightarrow> int \<Rightarrow> error + 'a" where
  "py_get xs i = (case py_index (length xs) i of Inl e \<Rightarrow> Inl e | Inr k \<Rightarrow> Inr (xs ! k))"

text \<open>Running a fallible function over a list, left to right; the first error wins.\<close>

fun mapM :: "('a \<Rightarrow> error + 'b) \<Rightarrow> 'a list \<Rightarrow> error + 'b list" where
  "mapM f [] = Inr []"
| "mapM f (x # xs) =
     (case f x of
        Inl e \<Rightarrow> Inl e
      | Inr y \<Rightarrow> (case mapM f xs of Inl e \<Rightarrow> Inl e | Inr ys \<Rightarrow> Inr (y # ys)))"

text \<open>
  The gain array has shape (Ntime, Nant, Nchan, 4); it is a nested list, outermost
  axis first. Arrays that the store holds by reference live in an explicit store of
  array objects: an address is a position in the list of allocated arrays, and
  allocation appends.
\<close>

type_synonym arr3 = "cfloat list list list"
type_synonym arr4 = "cfloat list list list list"
type_synonym addr = nat
type_synonym heap = "arr4 list"

definition alloc :: "heap \<Rightarrow> arr4 \<Rightarrow> addr \<times> heap" where
  "alloc h a = (length h, h @ [a])"

section \<open>The calibration-solution store\<close>

text \<open>
  The attributes of a \<^verbatim>\<open>CalFits\<close> instance that the modelled methods read. An
  attribute that \<^verbatim>\<open>__init__\<close> assigns only under a condition is optional, and
  reading it while unset raises AttributeError. \<open>antenna_flag\<close> (without the final s)
  is the attribute \<^verbatim>\<open>_check_refant\<close> reads, and \<open>m_thresh\<close>, \<open>reference_antenna\<close> and
  \<open>Nchan\<close> are attributes the metrics engine reads; \<^verbatim>\<open>__init__\<close> assigns none of the
  four, and neither does any other statement of the source.
\<close>

record CalFits =
  gain_array :: addr
  antenna :: "int list option"
  tilename :: "string list option"
  antenna_flags :: "int list option"
  antenna_flag :: "int list option"
  m_thresh :: "real option"
  reference_antenna :: "int option"
  Nchan :: "nat option"
  frequency_channels :: "int list option"
  frequency_array :: "real list option"
  frequency_flags :: "int list option"
  norm_cf :: bool
  ref_antenna :: "int option"

definition getattr :: "'a option \<Rightarrow> error + 'a" where
  "getattr v = (case v of None \<Rightarrow> Inl AttributeError | Some x \<Rightarrow> Inr x)"

subsection \<open>Reference-antenna selection\<close>

text \<open>
  \<^verbatim>\<open>_iterate_refant\<close>: \<^verbatim>\<open>anindex\<close> starts at -1 and only decreases, so the loop
  condition \<^verbatim>\<open>anindex < 0\<close> never ends the loop; it ends at the \<^verbatim>\<open>break\<close> or at
  the IndexError of \<^verbatim>\<open>self.antenna_flags[anindex]\<close>.
\<close>

function iterate_refant_loop :: "int list \<Rightarrow> int \<Rightarrow> error + int" where
  "iterate_refant_loop flags anindex =
     (if anindex < 0 then
        (if - int (length flags) \<le> anindex then
           (if flags ! nat (int (length flags) + anindex) = 0 then Inr anindex
            else iterate_refant_loop flags (anindex - 1))
         else Inl IndexError)
      else Inr anindex)"
  by pat_completeness auto
termination
  by (relation "measure (\<lambda>(flags, anindex). nat (int (length flags) + anindex + 1))") auto

declare iterate_refant_loop.simps [simp del]

definition iterate_refant :: "CalFits \<Rightarrow> error + int" where
  "iterate_refant self =
     (case getattr (antenna_flags self) of
        Inl e \<Rightarrow> Inl e
      | Inr flags \<Rightarrow>
          (case iterate_refant_loop flags (- 1) of
             Inl e \<Rightarrow> Inl e
           | Inr anindex \<Rightarrow>
               (case getattr (antenna self) of
                  Inl e \<Rightarrow> Inl e
                | Inr ants \<Rightarrow> py_get ants anindex)))"

definition gains_ind_for :: "int \<Rightarrow> int" where
  "gains_ind_for antnum = antnum"

text \<open>
  \<^verbatim>\<open>_check_refant\<close> reads \<^verbatim>\<open>self.antenna_flag\<close>, indexes it with the reference
  antenna and asserts that the flag is zero.
\<close>

definition check_refant :: "CalFits \<Rightarrow> error + unit" where
  "check_refant self =
     (case getattr (ref_antenna self) of
        Inl e \<Rightarrow> Inl e
      | Inr r \<Rightarrow>
          (case getattr (antenna_flag self) of
             Inl e \<Rightarrow> Inl e
           | Inr fl \<Rightarrow>
               (case py_get fl (gains_ind_for r) of
                  Inl e \<Rightarrow> Inl e
                | Inr flag \<Rightarrow> if flag = 0 then Inr () else Inl AssertionError)))"

subsection \<open>Per-antenna and per-pair accessors\<close>

text \<open>
  \<^verbatim>\<open>gains_for_antnum\<close> is \<^verbatim>\<open>self.gain_array[:, ind, :, :]\<close>: the antenna axis of
  every timeblock is indexed with the antenna number itself. (An array without
  timeblocks yields the empty result; NumPy would still check the index against the
  antenna axis.)
\<close>

definition gains_for_antnum :: "CalFits \<Rightarrow> heap \<Rightarrow> int \<Rightarrow> error + arr3" where
  "gains_for_antnum self h antnum =
     (let ind = gains_ind_for antnum
      in mapM (\<lambda>gt. py_get gt ind) (h ! gain_array self))"

definition ew3 :: "('a \<Rightarrow> 'b \<Rightarrow> 'c) \<Rightarrow> 'a list list list \<Rightarrow> 'b list list list \<Rightarrow> 'c list list list" where
  "ew3 f xs ys = map2 (map2 (map2 f)) xs ys"

definition map3 :: "('a \<Rightarrow> 'b) \<Rightarrow> 'a list list list \<Rightarrow> 'b list list list" where
  "map3 f xs = map (map (map f)) xs"

definition gains_for_antpair :: "CalFits \<Rightarrow> heap \<Rightarrow> int \<times> int \<Rightarrow> error + arr3" where
  "gains_for_antpair self h antpair =
     (case gains_for_antnum self h (fst antpair) of
        Inl e \<Rightarrow> Inl e
      | Inr gains_t0 \<Rightarrow>
          (case gains_for_antnum self h (snd antpair) of
             Inl e \<Rightarrow> Inl e
           | Inr gains_t1 \<Rightarrow> Inr (ew3 cmul gains_t0 (map3 np_conj gains_t1))))"

subsection \<open>Normalization against the reference antenna\<close>

text \<open>
  A 2x2 Jones matrix is the four polarization entries of one channel, row by row.
  \<^verbatim>\<open>reshape((2, 2))\<close> needs exactly four entries and raises ValueError otherwise;
  \<^verbatim>\<open>reshape((-1, 2, 2))\<close> of the (Nchan, Npol) slice of the reference antenna regroups
  the flattened slice four entries at a time.
\<close>

type_synonym mat22 = "(cfloat \<times> cfloat) \<times> (cfloat \<times> cfloat)"

fun reshape22 :: "cfloat list \<Rightarrow> error + mat22" where
  "reshape22 [a, b, c, d] = Inr ((a, b), (c, d))"
| "reshape22 _ = Inl ValueError"

fun chunks4 :: "cfloat list \<Rightarrow> mat22 list" where
  "chunks4 (a # b # c # d # xs) = ((a, b), (c, d)) # chunks4 xs"
| "chunks4 _ = []"

definition reshape_n22 :: "cfloat list list \<Rightarrow> error + mat22 list" where
  "reshape_n22 rows =
     (let flat = concat rows
      in if length flat mod 4 = 0 then Inr (chunks4 flat) else Inl ValueError)"

definition flatten22 :: "mat22 \<Rightarrow> cfloat list" where
  "flatten22 m = [fst (fst m), snd (fst m), fst (snd m), snd (snd m)]"

text \<open>
  \<^verbatim>\<open>np.linalg.inv\<close> is library code that factorizes the matrix in floating point:
  whether it raises LinAlgError on a given matrix depends on the rounded pivots, not
  on the exact determinant. It is a parameter \<open>linalg_inv\<close> of the model, a function
  from a 2x2 matrix to its inverse or an exception, and a property that depends on
  what the library does on some matrix states that as a hypothesis on the parameter.
\<close>

definition dot :: "mat22 \<Rightarrow> mat22 \<Rightarrow> mat22" where
  "dot x y =
     (case x of ((a, b), (c, d)) \<Rightarrow>
      case y of ((e, f), (g, k)) \<Rightarrow>
        ((cadd (cmul a e) (cmul b g), cadd (cmul a f) (cmul b k)),
         (cadd (cmul c e) (cmul d g), cadd (cmul c f) (cmul d k))))"

text \<open>
  \<^verbatim>\<open>_normalized_data\<close> for one timeblock \<open>data\<close> of shape (Nant, Nchan, 4): invert
  the reference antenna's matrix at every channel, then right-multiply every
  antenna's matrix by the inverse of the same channel. The products are collected
  antenna by antenna and channel by channel, which for four entries per channel is the
  order \<^verbatim>\<open>reshape(data.shape)\<close> regroups them in.
\<close>

definition normalized_data ::
  "(mat22 \<Rightarrow> error + mat22) \<Rightarrow> CalFits \<Rightarrow> arr3 \<Rightarrow> error + arr3" where
  "normalized_data linalg_inv self data =
     (case getattr (ref_antenna self) of
        Inl e \<Rightarrow> Inl e
      | Inr r \<Rightarrow>
          (case py_get data (gains_ind_for r) of
             Inl e \<Rightarrow> Inl e
           | Inr ref_rows \<Rightarrow>
               (case reshape_n22 ref_rows of
                  Inl e \<Rightarrow> Inl e
                | Inr ref_mats \<Rightarrow>
                    (case mapM linalg_inv ref_mats of
                       Inl e \<Rightarrow> Inl e
                     | Inr refs \<Rightarrow>
                         mapM (\<lambda>tile_i.
                                 mapM (\<lambda>(i, ref).
                                         case reshape22 i of
                                           Inl e \<Rightarrow> Inl e
                                         | Inr m \<Rightarrow> Inr (flatten22 (dot m ref)))
                                      (zip tile_i refs))
                              data))))"

text \<open>
  \<^verbatim>\<open>normalized_gains\<close>: \<^verbatim>\<open>copy.deepcopy\<close> allocates a new array object holding a
  copy of the gain array; the loop then overwrites row \<open>t\<close> of the copy with the
  normalization of row \<open>t\<close> of whatever \<^verbatim>\<open>self.gain_array\<close> refers to at that
  moment. The address of the copy is returned. The store of array objects is returned
  on every path, also when an exception leaves the method.
\<close>

fun normalized_gains_loop ::
  "(mat22 \<Rightarrow> error + mat22) \<Rightarrow> CalFits \<Rightarrow> addr \<Rightarrow> nat list \<Rightarrow> heap \<Rightarrow>
   error option \<times> heap" where
  "normalized_gains_loop linalg_inv self ngains [] h = (None, h)"
| "normalized_gains_loop linalg_inv self ngains (t # ts) h =
     (case normalized_data linalg_inv self ((h ! gain_array self) ! t) of
        Inl e \<Rightarrow> (Some e, h)
      | Inr row \<Rightarrow>
          normalized_gains_loop linalg_inv self ngains ts (h[ngains := (h ! ngains)[t := row]]))"

definition normalized_gains ::
  "(mat22 \<Rightarrow> error + mat22) \<Rightarrow> CalFits \<Rightarrow> heap \<Rightarrow> (error + addr) \<times> heap" where
  "normalized_gains linalg_inv self h =
     (let (ngains, h1) = alloc h (h ! gain_array self);
          (raised, h2) =
            normalized_gains_loop linalg_inv self ngains [0..<length (h1 ! ngains)] h1
      in case raised of
           Some e \<Rightarrow> (Inl e, h2)
         | None \<Rightarrow> (Inr ngains, h2))"

subsection \<open>Construction\<close>

text \<open>
  \<^verbatim>\<open>CalFits.__init__\<close> from the point where the container has been opened:
  \<open>cal_data\<close> is the SOLUTIONS array with real and imaginary parts already combined,
  \<open>tile_fields\<close> and \<open>chan_fields\<close> are the column names \<^verbatim>\<open>hdu_fields\<close> returns, and
  \<open>tile_data\<close>, \<open>chan_data\<close> are the table rows, whose columns are read by position.
  The time table, the header scalars, the convergence and baseline-weight arrays and
  the derived amplitude and phase views do not enter the modelled methods.
\<close>

definition CalFits_init ::
  "(mat22 \<Rightarrow> error + mat22) \<Rightarrow> heap \<Rightarrow> arr4 \<Rightarrow> string list \<Rightarrow> (int \<times> string \<times> int) list \<Rightarrow>
   string list \<Rightarrow> (int \<times> real \<times> int) list \<Rightarrow> bool \<Rightarrow> int option \<Rightarrow>
   error + (CalFits \<times> heap)" where
  "CalFits_init linalg_inv h cal_data tile_fields tile_data chan_fields chan_data
     norm_arg ref_antenna_arg =
     (let (a, h1) = alloc h cal_data;
          self = \<lparr> gain_array = a,
                   antenna = (if ''Antenna'' \<in> set tile_fields
                              then Some (map fst tile_data) else None),
                   tilename = (if ''TileName'' \<in> set tile_fields
                               then Some (map (fst \<circ> snd) tile_data) else None),
                   antenna_flags = (if ''Flag'' \<in> set tile_fields
                                    then Some (map (snd \<circ> snd) tile_data) else None),
                   antenna_flag = None,
                   m_thresh = None,
                   reference_antenna = None,
                   Nchan = None,
                   frequency_channels = (if ''Index'' \<in> set chan_fields
                                         then Some (map fst chan_data) else None),
                   frequency_array = (if ''Freq'' \<in> set chan_fields
                                      then Some (map (fst \<circ> snd) chan_data) else None),
                   frequency_flags = (if ''Flag'' \<in> set chan_fields
                                      then Some (map (snd \<circ> snd) chan_data) else None),
                   norm_cf = norm_arg,
                   ref_antenna = None \<rparr>
      in if norm_arg then
           (case (case ref_antenna_arg of
                    None \<Rightarrow>
                      (case iterate_refant self of
                         Inl e \<Rightarrow> Inl e
                       | Inr r \<Rightarrow> Inr (self\<lparr>ref_antenna := Some r\<rparr>))
                  | Some r \<Rightarrow>
                      (case check_refant (self\<lparr>ref_antenna := Some r\<rparr>) of
                         Inl e \<Rightarrow> Inl e
                       | Inr _ \<Rightarrow> Inr (self\<lparr>ref_antenna := Some r\<rparr>))) of
              Inl e \<Rightarrow> Inl e
            | Inr self1 \<Rightarrow>
                (case normalized_gains linalg_inv self1 h1 of
                   (Inl e, h2) \<Rightarrow> Inl e
                 | (Inr ngains, h2) \<Rightarrow> Inr (self1\<lparr>gain_array := ngains\<rparr>, h2)))
         else Inr (self, h1))"

subsection \<open>The shape invariant of the gain array\<close>

text \<open>
  A gain array is rectangular with four polarization entries per channel; that an
  entry is finite or NaN is in the type of the entries.
\<close>

definition tile_shape :: "arr3 \<Rightarrow> nat \<Rightarrow> bool" where
  "tile_shape data nchan = (\<forall>ga\<in>set data. length ga = nchan \<and> (\<forall>gc\<in>set ga. length gc = 4))"

definition shape_ok :: "arr4 \<Rightarrow> nat \<Rightarrow> nat \<Rightarrow> bool" where
  "shape_ok g nant nchan = (\<forall>gt\<in>set g. length gt = nant \<and> tile_shape gt nchan)"

definition identity22 :: "cfloat list" where
  "identity22 = [Some 1, Some 0, Some 0, Some 1]"

text \<open>
  The four entries of one channel of a well-shaped array, read as a 2x2 matrix row by
  row; on four entries it is what \<^verbatim>\<open>reshape((2, 2))\<close> returns.
\<close>

definition to22 :: "cfloat list \<Rightarrow> mat22" where
  "to22 gc = ((gc ! 0, gc ! 1), (gc ! 2, gc ! 3))"

text \<open>
  What the product with the identity matrix makes of the four entries of one channel:
  each entry of a row of the Jones matrix is multiplied by 1 and the other entry of
  the row by 0, and a NaN times 0 is NaN, so a row that holds a NaN comes out NaN in
  both entries and a row of two finite entries comes out as it was. A row is uniform
  when its entries are both NaN or both finite.
\<close>

definition nan_spread :: "cfloat list \<Rightarrow> cfloat list" where
  "nan_spread gc =
     [if gc ! 1 = None then None else gc ! 0, if gc ! 0 = None then None else gc ! 1,
      if gc ! 3 = None then None else gc ! 2, if gc ! 2 = None then None else gc ! 3]"

definition row_uniform :: "cfloat list \<Rightarrow> bool" where
  "row_uniform gc = ((gc ! 0 = None) = (gc ! 1 = None) \<and> (gc ! 2 = None) = (gc ! 3 = None))"

subsection \<open>The spectral transform\<close>

text \<open>
  \<^verbatim>\<open>np.fft.fft\<close> of a one-dimensional array is the discrete Fourier transform and raises
  ValueError on an array without elements; \<^verbatim>\<open>np.fft.fftshift\<close> rotates by half the
  length, so that the zero-frequency term is centred.
\<close>

definition dft :: "complex list \<Rightarrow> complex list" where
  "dft xs =
     (let n = length xs
      in map (\<lambda>k. \<Sum>m\<leftarrow>[0..<n]. xs ! m * cis (- (2 * pi * real k * real m / real n))) [0..<n])"

definition np_fft :: "complex list \<Rightarrow> error + complex list" where
  "np_fft xs = (if xs = [] then Inl ValueError else Inr (dft xs))"

definition fftshift :: "'a list \<Rightarrow> 'a list" where
  "fftshift xs = (let n = length xs in drop (n - n div 2) xs @ take (n - n div 2) xs)"

text \<open>Assignment through an index array, \<^verbatim>\<open>out[inds] = vals\<close>, one position after the other.\<close>

definition put :: "nat list \<Rightarrow> 'a list \<Rightarrow> 'a list \<Rightarrow> 'a list" where
  "put inds vals out = fold (\<lambda>(c, v) acc. acc[c := v]) (zip inds vals) out"

text \<open>
  The body of the loop of \<^verbatim>\<open>gains_fft\<close> for one (timeblock, antenna, polarization):
  \<open>data\<close> is the slice along the channel axis, \<open>window\<close> the window computed once for
  the whole call. Indexing the window with a channel position it does not have raises
  IndexError, which the \<^verbatim>\<open>except ValueError\<close> clause does not catch.
\<close>

definition filter_nans :: "cfloat list \<Rightarrow> nat list \<times> nat list" where
  "filter_nans data =
     (filter (\<lambda>c. data ! c \<noteq> None) [0..<length data],
      filter (\<lambda>c. data ! c = None) [0..<length data])"

definition fft_slice :: "real list \<Rightarrow> cfloat list \<Rightarrow> error + cfloat list" where
  "fft_slice window data =
     (let (nonans_inds, nans_inds) = filter_nans data
      in if \<exists>c\<in>set nonans_inds. length window \<le> c then Inl IndexError
         else (case np_fft (map (\<lambda>c. the (data ! c) * complex_of_real (window ! c)) nonans_inds) of
                 Inl e \<Rightarrow>
                   if e = ValueError then Inr (replicate (length data) None) else Inl e
               | Inr d_fft \<Rightarrow>
                   Inr (put nans_inds (replicate (length nans_inds) None)
                          (put nonans_inds (map Some (fftshift d_fft))
                             (replicate (length data) (Some 0))))))"

text \<open>
  One (timeblock, antenna) block of shape (Nchan, Npol): the polarizations are
  transformed one after the other, and the results are the columns of the output block.
\<close>

definition fft_tile :: "real list \<Rightarrow> cfloat list list \<Rightarrow> error + cfloat list list" where
  "fft_tile window rows =
     (let npol = (case rows of [] \<Rightarrow> 0 | r # _ \<Rightarrow> length r)
      in case mapM (\<lambda>j. fft_slice window (map (\<lambda>row. row ! j) rows)) [0..<npol] of
           Inl e \<Rightarrow> Inl e
         | Inr cols \<Rightarrow> Inr (map (\<lambda>c. map (\<lambda>j. cols ! j ! c) [0..<npol]) [0..<length rows]))"

text \<open>
  \<^verbatim>\<open>gains_fft\<close>. The window function \<^verbatim>\<open>scipy.signal.windows.blackmanharris\<close> is a
  library function and a parameter of the model.
\<close>

definition gains_fft :: "(nat \<Rightarrow> real list) \<Rightarrow> CalFits \<Rightarrow> heap \<Rightarrow> error + arr4" where
  "gains_fft blackmanharris self h =
     (case getattr (frequency_array self) of
        Inl e \<Rightarrow> Inl e
      | Inr fa \<Rightarrow>
          (let window = blackmanharris (length fa)
           in mapM (\<lambda>gt. mapM (\<lambda>rows. fft_tile window rows) gt) (h ! gain_array self)))"

text \<open>
  Notions used to state what the transform does to one slice: the slice itself, the
  windowed sequence of its non-NaN entries, and the number of non-NaN entries before
  a channel.
\<close>

definition chan_slice :: "arr4 \<Rightarrow> nat \<Rightarrow> nat \<Rightarrow> nat \<Rightarrow> cfloat list" where
  "chan_slice g t i j = map (\<lambda>row. row ! j) (g ! t ! i)"

definition windowed :: "real list \<Rightarrow> cfloat list \<Rightarrow> complex list" where
  "windowed w col =
     map (\<lambda>c. the (col ! c) * complex_of_real (w ! c)) (filter (\<lambda>c. col ! c \<noteq> None) [0..<length col])"

definition rank_nonan :: "cfloat list \<Rightarrow> nat \<Rightarrow> nat" where
  "rank_nonan col c = length (filter (\<lambda>c'. col ! c' \<noteq> None) [0..<c])"

text \<open>What the transform leaves in the output slice \<open>out\<close> for the input slice \<open>col\<close>.\<close>

definition slice_ok :: "real list \<Rightarrow> cfloat list \<Rightarrow> cfloat list \<Rightarrow> bool" where
  "slice_ok window col out =
     (length out = length col
      \<and> (\<forall>c<length col. out ! c =
             (case col ! c of
                None \<Rightarrow> None
              | Some _ \<Rightarrow> Some (fftshift (dft (windowed window col)) ! rank_nonan col c))))"

section \<open>Real-valued statistics with NaN and infinities\<close>

text \<open>
  A real array entry is NaN, an infinity or a finite real. Arithmetic follows
  IEEE 754 on the special values and is exact on finite ones (no rounding, no
  overflow). A zero divisor is taken as positive zero; the divisors of the modelled
  code are medians of absolute values and standard deviations, which are never
  negative zero.
\<close>

datatype npfloat = NaN | NInf | Fin real | PInf

fun fneg :: "npfloat \<Rightarrow> npfloat" where
  "fneg NaN = NaN"
| "fneg NInf = PInf"
| "fneg (Fin a) = Fin (- a)"
| "fneg PInf = NInf"

fun fabs :: "npfloat \<Rightarrow> npfloat" where
  "fabs NaN = NaN"
| "fabs NInf = PInf"
| "fabs (Fin a) = Fin \<bar>a\<bar>"
| "fabs PInf = PInf"

fun fadd :: "npfloat \<Rightarrow> npfloat \<Rightarrow> npfloat" where
  "fadd (Fin a) (Fin b) = Fin (a + b)"
| "fadd NaN _ = NaN"
| "fadd _ NaN = NaN"
| "fadd PInf NInf = NaN"
| "fadd NInf PInf = NaN"
| "fadd PInf _ = PInf"
| "fadd _ PInf = PInf"
| "fadd NInf _ = NInf"
| "fadd _ NInf = NInf"

definition fsub :: "npfloat \<Rightarrow> npfloat \<Rightarrow> npfloat" where
  "fsub x y = fadd x (fneg y)"


fun fdiv :: "npfloat \<Rightarrow> npfloat \<Rightarrow> npfloat" where
  "fdiv (Fin a) (Fin b) =
     (if b \<noteq> 0 then Fin (a / b) else if a = 0 then NaN else if 0 < a then PInf else NInf)"
| "fdiv NaN _ = NaN"
| "fdiv _ NaN = NaN"
| "fdiv (Fin a) PInf = Fin 0"
| "fdiv (Fin a) NInf = Fin 0"
| "fdiv PInf (Fin b) = (if 0 \<le> b then PInf else NInf)"
| "fdiv NInf (Fin b) = (if 0 \<le> b then NInf else PInf)"
| "fdiv PInf PInf = NaN"
| "fdiv PInf NInf = NaN"
| "fdiv NInf PInf = NaN"
| "fdiv NInf NInf = NaN"


text \<open>Comparison: every comparison with NaN is false.\<close>

fun flt :: "npfloat \<Rightarrow> npfloat \<Rightarrow> bool" where
  "flt (Fin a) (Fin b) = (a < b)"
| "flt NaN _ = False"
| "flt _ NaN = False"
| "flt NInf NInf = False"
| "flt NInf _ = True"
| "flt _ NInf = False"
| "flt PInf _ = False"
| "flt _ PInf = True"

definition nonnan :: "npfloat list \<Rightarrow> npfloat list" where
  "nonnan xs = filter (\<lambda>x. x \<noteq> NaN) xs"

definition fsum :: "npfloat list \<Rightarrow> npfloat" where
  "fsum xs = foldl fadd (Fin 0) xs"


text \<open>
  The NaN-aware reductions of NumPy over one axis. On an axis without a non-NaN
  entry \<^verbatim>\<open>nanmean\<close>, \<^verbatim>\<open>nanmedian\<close>, \<^verbatim>\<open>nanvar\<close> and \<^verbatim>\<open>nanstd\<close> answer NaN (with a
  warning) and \<^verbatim>\<open>nansum\<close> answers zero; \<^verbatim>\<open>nanmax\<close> answers NaN on an all-NaN axis
  and raises ValueError on an empty one.
\<close>

definition nansum :: "npfloat list \<Rightarrow> npfloat" where
  "nansum xs = fsum (nonnan xs)"


fun finsert :: "npfloat \<Rightarrow> npfloat list \<Rightarrow> npfloat list" where
  "finsert x [] = [x]"
| "finsert x (y # ys) = (if flt y x then y # finsert x ys else x # y # ys)"

definition fsort :: "npfloat list \<Rightarrow> npfloat list" where
  "fsort xs = foldr finsert xs []"

definition nanmedian :: "npfloat list \<Rightarrow> npfloat" where
  "nanmedian xs =
     (let ys = fsort (nonnan xs); n = length ys
      in if n = 0 then NaN
         else if odd n then ys ! (n div 2)
         else fdiv (fadd (ys ! (n div 2 - 1)) (ys ! (n div 2))) (Fin 2))"





section \<open>The metrics engine\<close>

text \<open>
  The modified z-score of \<^verbatim>\<open>run_metrics\<close>,
  \<^verbatim>\<open>(x - median) / nanmedian(abs(x - median))\<close>, which the method computes once for the
  RMS amplitudes and once for the delay-spectrum power, and the selection
  \<^verbatim>\<open>np.where((z < -1 * ant_threshold) | (z > ant_threshold))\<close> of the antenna indices
  beyond the threshold.
\<close>

definition modz :: "npfloat list \<Rightarrow> npfloat list" where
  "modz x =
     (let median = nanmedian x;
          dev = map (\<lambda>v. fsub v median) x;
          mad = nanmedian (map fabs dev)
      in map (\<lambda>d. fdiv d mad) dev)"

definition where_beyond :: "real \<Rightarrow> npfloat list \<Rightarrow> nat list" where
  "where_beyond ant_threshold z =
     filter (\<lambda>i. flt (z ! i) (Fin (- 1 * ant_threshold)) \<or> flt (Fin ant_threshold) (z ! i))
            [0..<length z]"

subsection \<open>Variances and skewness over short baselines\<close>










subsection \<open>The aggregation pass\<close>

text \<open>
  \<^verbatim>\<open>_initialize_metrics_dict\<close> fills the report with echoed run parameters. The model
  keeps its reads of the store, in the order of the source, since each of them can
  raise: \<^verbatim>\<open>obsid\<close>, \<^verbatim>\<open>uvcut\<close> and \<^verbatim>\<open>Ntime\<close> are always assigned by \<^verbatim>\<open>__init__\<close> and
  left out; \<^verbatim>\<open>m_thresh\<close>, \<^verbatim>\<open>reference_antenna\<close> (read when normalization was requested)
  and \<^verbatim>\<open>Nchan\<close> are read as attributes of the store; \<^verbatim>\<open>frequency_array\<close> is indexed at
  0 and at 1. The reads of \<^verbatim>\<open>poly_order\<close> and \<^verbatim>\<open>poly_mse\<close> stand in a \<^verbatim>\<open>try\<close> block
  that catches their AttributeError.
\<close>

definition initialize_metrics_dict :: "CalFits \<Rightarrow> error + unit" where
  "initialize_metrics_dict self =
     (case getattr (m_thresh self) of
        Inl e \<Rightarrow> Inl e
      | Inr _ \<Rightarrow>
     (case (if norm_cf self
            then (case getattr (reference_antenna self) of Inl e \<Rightarrow> Inl e | Inr _ \<Rightarrow> Inr ())
            else Inr ()) of
        Inl e \<Rightarrow> Inl e
      | Inr _ \<Rightarrow>
     (case getattr (frequency_array self) of
        Inl e \<Rightarrow> Inl e
      | Inr freqs \<Rightarrow>
     (case py_get freqs 0 of
        Inl e \<Rightarrow> Inl e
      | Inr _ \<Rightarrow>
     (case py_get freqs 1 of
        Inl e \<Rightarrow> Inl e
      | Inr _ \<Rightarrow>
     (case getattr (Nchan self) of
        Inl e \<Rightarrow> Inl e
      | Inr _ \<Rightarrow>
     (case getattr (antenna self) of
        Inl e \<Rightarrow> Inl e
      | Inr _ \<Rightarrow> Inr ())))))))"

text \<open>
  \<^verbatim>\<open>run_metrics\<close> calls \<^verbatim>\<open>_initialize_metrics_dict\<close>, reads the gain array and calls
  \<^verbatim>\<open>self.CalFits.fft_gains()\<close>. The store's method is named \<^verbatim>\<open>gains_fft\<close>; the store has
  no attribute \<^verbatim>\<open>fft_gains\<close>, so the call raises AttributeError. The statements after
  the call are reached on no path.
\<close>

definition run_metrics :: "CalFits \<Rightarrow> real \<Rightarrow> error + unit" where
  "run_metrics self ant_threshold =
     (case initialize_metrics_dict self of
        Inl e \<Rightarrow> Inl e
      | Inr _ \<Rightarrow> Inl AttributeError)"

text \<open>
  Statements of \<^verbatim>\<open>run_metrics\<close> below that call, as functions of the values they
  operate on. The modified z-score and the index selection are \<open>modz\<close> and
  \<open>where_beyond\<close> above. \<^verbatim>\<open>self.CalFits.antenna[inds[0]]\<close> indexes the store's antenna
  table, which is a Python list, with the index array \<^verbatim>\<open>np.where\<close> returns: a list
  takes an integer as index, and raises TypeError when handed an array of one
  dimension, whatever its length.
\<close>

datatype pyindex = IntIndex int | ArrayIndex "nat list"

definition list_getitem :: "'a list \<Rightarrow> pyindex \<Rightarrow> error + 'a" where
  "list_getitem xs i =
     (case i of
        IntIndex k \<Rightarrow> py_get xs k
      | ArrayIndex inds \<Rightarrow> Inl TypeError)"

text \<open>
  The keys the loop over the polarizations writes for XX and for YY, and the global
  entry \<^verbatim>\<open>self.metrics['BAD_ANTS']\<close>, which is
  \<^verbatim>\<open>np.unique(self.metrics['XX']['BAD_ANTS'].tolist() + self.metrics['XX']['BAD_ANTS'].tolist())\<close>:
  a function of the two per-polarization dictionaries.
\<close>

record pol_metrics =
  RMS :: "npfloat list"
  RMS_MODZ :: "npfloat list"
  BAD_ANTS :: "int list"
  SKEWNESS :: npfloat
  DFFT_POWER :: npfloat

definition np_unique :: "int list \<Rightarrow> int list" where
  "np_unique xs = sort (remdups xs)"

definition bad_ants_entry :: "pol_metrics \<Rightarrow> pol_metrics \<Rightarrow> int list" where
  "bad_ants_entry xx yy = np_unique (BAD_ANTS xx @ BAD_ANTS xx)"

section \<open>Concrete stores used as test inputs\<close>

definition tiles_a :: CalFits where
  "tiles_a = \<lparr> gain_array = 0, antenna = Some [10, 11, 12, 13], tilename = None,
     antenna_flags = Some [0, 0, 1, 1], antenna_flag = None, m_thresh = None,
     reference_antenna = None, Nchan = None, frequency_channels = None,
     frequency_array = None, frequency_flags = None, norm_cf = True, ref_antenna = None \<rparr>"

definition tiles_b :: CalFits where
  "tiles_b = \<lparr> gain_array = 0, antenna = Some [10, 11], tilename = None,
     antenna_flags = Some [1, 1], antenna_flag = None, m_thresh = None,
     reference_antenna = None, Nchan = None, frequency_channels = None,
     frequency_array = None, frequency_flags = None, norm_cf = True, ref_antenna = None \<rparr>"

definition store_pair :: CalFits where
  "store_pair = \<lparr> gain_array = 0, antenna = Some [0, 1], tilename = None,
     antenna_flags = Some [0, 0], antenna_flag = None, m_thresh = None,
     reference_antenna = None, Nchan = None, frequency_channels = None,
     frequency_array = None, frequency_flags = None, norm_cf = False, ref_antenna = None \<rparr>"

definition heap_pair :: heap where
  "heap_pair = [[[[[Some \<i>, Some 2, Some 0, None]], [[Some 1, Some \<i>, Some 3, Some 1]]]]]"

definition store_norm :: CalFits where
  "store_norm = \<lparr> gain_array = 0, antenna = Some [0, 1], tilename = None,
     antenna_flags = Some [0, 0], antenna_flag = None, m_thresh = None,
     reference_antenna = None, Nchan = None, frequency_channels = None,
     frequency_array = None, frequency_flags = None, norm_cf = True, ref_antenna = Some 1 \<rparr>"

text \<open>
  The inverse in exact arithmetic, which stands for \<^verbatim>\<open>np.linalg.inv\<close> on the test
  inputs. It raises LinAlgError on the zero matrix and returns the identity on the
  identity, as the library does, and the stores below hand it no other matrix. It is
  not a model of the library on matrices whose factorization depends on rounding, nor
  on matrices with NaN entries.
\<close>

definition exact_inv :: "mat22 \<Rightarrow> error + mat22" where
  "exact_inv m =
     (case m of
        ((Some a, Some b), (Some c, Some d)) \<Rightarrow>
          (let det = a * d - b * c
           in if det = 0 then Inl LinAlgError
              else Inr ((Some (d / det), Some (- b / det)), (Some (- c / det), Some (a / det))))
      | _ \<Rightarrow> Inr ((None, None), (None, None)))"

text \<open>
  One timeblock, two antennas, two channels. In \<open>heap_sing\<close> the reference antenna 1
  has the zero matrix at channel 0 and the identity at channel 1; in \<open>heap_ident\<close> it
  has the identity at both channels, and antenna 0 is flagged (NaN) at channel 1; in
  \<open>heap_mixed\<close> it has the identity at both channels, and antenna 0 has a NaN in its
  XX entry only at channel 0 and in its YY entry only at channel 1. \<open>heap_spread\<close>
  is \<open>heap_mixed\<close> with one more array object, in which the XY entry of antenna 0 at
  channel 0 and its YX entry at channel 1 are NaN as well.
\<close>

definition heap_sing :: heap where
  "heap_sing =
     [[[[[Some 2, Some 0, Some 0, Some 2], [Some 1, Some 1, Some 1, Some 1]],
        [[Some 0, Some 0, Some 0, Some 0], [Some 1, Some 0, Some 0, Some 1]]]]]"

definition heap_ident :: heap where
  "heap_ident =
     [[[[[Some 2, Some \<i>, Some 0, Some 3], [None, None, None, None]],
        [[Some 1, Some 0, Some 0, Some 1], [Some 1, Some 0, Some 0, Some 1]]]]]"

definition heap_mixed :: heap where
  "heap_mixed =
     [[[[[None, Some 2, Some 3, Some 4], [Some 5, Some 6, Some 7, None]],
        [[Some 1, Some 0, Some 0, Some 1], [Some 1, Some 0, Some 0, Some 1]]]]]"

definition heap_spread :: heap where
  "heap_spread =
     [[[[[None, Some 2, Some 3, Some 4], [Some 5, Some 6, Some 7, None]],
        [[Some 1, Some 0, Some 0, Some 1], [Some 1, Some 0, Some 0, Some 1]]]],
      [[[[None, None, Some 3, Some 4], [Some 5, Some 6, None, None]],
        [[Some 1, Some 0, Some 0, Some 1], [Some 1, Some 0, Some 0, Some 1]]]]]"

text \<open>A one-tile antenna table whose only antenna, number 0, is flagged.\<close>

definition tile_rows_flagged :: "(int \<times> string \<times> int) list" where
  "tile_rows_flagged = [(0, ''Tile011'', 1)]"

definition tile_columns :: "string list" where
  "tile_columns = [''Antenna'', ''TileName'', ''Flag'']"

definition cal_one :: arr4 where
  "cal_one = [[[[Some 1, Some 0, Some 0, Some 1]]]]"

text \<open>
  One timeblock, one antenna, two channels with frequencies 150 and 151 (in MHz, the
  unit plays no role): XX and XY are NaN at channel 0, YX is finite at both channels,
  YY is NaN at both.
\<close>

definition store_fft :: CalFits where
  "store_fft = \<lparr> gain_array = 0, antenna = Some [0], tilename = None,
     antenna_flags = Some [0], antenna_flag = None, m_thresh = None,
     reference_antenna = None, Nchan = None, frequency_channels = None,
     frequency_array = Some [150, 151], frequency_flags = None, norm_cf = False,
     ref_antenna = None \<rparr>"

definition heap_fft :: heap where
  "heap_fft = [[[[[None, None, Some 1, None], [Some 2, Some \<i>, Some 3, None]]]]]"

definition boxcar :: "nat \<Rightarrow> real list" where
  "boxcar n = replicate n 1"

text \<open>
  The store of a calibration file with five antennas numbered 0 to 4 and two
  channels, read without normalization.
\<close>

definition store_five :: CalFits where
  "store_five = \<lparr> gain_array = 0, antenna = Some [0, 1, 2, 3, 4], tilename = None,
     antenna_flags = Some [0, 0, 0, 0, 0], antenna_flag = None, m_thresh = None,
     reference_antenna = None, Nchan = None, frequency_channels = None,
     frequency_array = Some [150, 151], frequency_flags = None, norm_cf = False,
     ref_antenna = None \<rparr>"





section \<open>Verified properties\<close>

subsection \<open>Helper facts about sequencing, reshaping and 2x2 matrices\<close>


lemma length4E: "length xs = 4 \<Longrightarrow> \<exists>a b c d. xs = [a, b, c, d]"
  by (cases xs; simp; cases "tl xs"; simp; cases "tl (tl xs)"; simp; cases "tl (tl (tl xs))"; simp)

lemma reshape22_len4: "length gc = 4 \<Longrightarrow> reshape22 gc = Inr (to22 gc)"
  by (drule length4E) (auto simp: to22_def)

lemma chunks4_concat:
  "\<forall>r\<in>set rows. length r = 4 \<Longrightarrow>
     chunks4 (concat rows) = map to22 rows \<and> length (concat rows) = 4 * length rows"
proof (induction rows)
  case Nil
  then show ?case by simp
next
  case (Cons r rows)
  have "length r = 4" using Cons.prems by simp
  then obtain a b c d where r: "r = [a, b, c, d]" using length4E by blast
  have ih: "chunks4 (concat rows) = map to22 rows \<and> length (concat rows) = 4 * length rows"
    using Cons by simp
  show ?case unfolding r using ih by (simp add: to22_def)
qed

lemma reshape_n22_rows:
  "\<forall>r\<in>set rows. length r = 4 \<Longrightarrow> reshape_n22 rows = Inr (map to22 rows)"
  using chunks4_concat [of rows] by (simp add: reshape_n22_def Let_def)

lemma mapM_Inr: "(\<forall>x\<in>set xs. f x = Inr (g x)) \<Longrightarrow> mapM f xs = Inr (map g xs)"
  by (induction xs) auto

lemma mapM_length: "mapM f xs = Inr ys \<Longrightarrow> length ys = length xs"
  by (induction xs arbitrary: ys) (auto split: sum.splits)

lemma mapM_nth: "mapM f xs = Inr ys \<Longrightarrow> i < length xs \<Longrightarrow> f (xs ! i) = Inr (ys ! i)"
proof (induction xs arbitrary: ys i)
  case Nil
  then show ?case by simp
next
  case (Cons x xs)
  then show ?case by (cases i) (auto split: sum.splits)
qed

lemma mapM_only_error:
  assumes "\<forall>x\<in>set xs. \<forall>e. f x = Inl e \<longrightarrow> e = E" and "mapM f xs = Inl e"
  shows "e = E"
  using assms
proof (induction xs)
  case Nil
  then show ?case by simp
next
  case (Cons x xs)
  show ?case
  proof (cases "f x")
    case (Inl e')
    then show ?thesis using Cons.prems by simp
  next
    case (Inr y)
    then have "mapM f xs = Inl e"
      using Cons.prems(2) by (cases "mapM f xs") simp_all
    then show ?thesis using Cons.IH Cons.prems(1) by simp
  qed
qed

lemma mapM_total:
  assumes "\<forall>x\<in>set xs. \<exists>y. f x = Inr y"
  shows "\<exists>ys. mapM f xs = Inr ys"
  using assms
proof (induction xs)
  case Nil
  then show ?case by simp
next
  case (Cons x xs)
  obtain y where y: "f x = Inr y" using Cons.prems by auto
  obtain ys where ys: "mapM f xs = Inr ys" using Cons by auto
  show ?case using y ys by simp
qed

lemma mapM_raises:
  assumes "x \<in> set xs" and "f x = Inl E"
    and "\<forall>x\<in>set xs. \<forall>e. f x = Inl e \<longrightarrow> e = E"
  shows "mapM f xs = Inl E"
proof (cases "mapM f xs")
  case (Inl e)
  then show ?thesis using mapM_only_error [OF assms(3) Inl] by simp
next
  case (Inr ys)
  obtain i where i: "i < length xs" "xs ! i = x"
    using assms(1) by (auto simp: in_set_conv_nth)
  have "f (xs ! i) = Inr (ys ! i)" using mapM_nth [OF Inr i(1)] .
  then show ?thesis using assms(2) i(2) by simp
qed

lemma mapM_some_error:
  assumes "x \<in> set xs" and "f x = Inl e"
  shows "\<exists>e'. mapM f xs = Inl e'"
proof (cases "mapM f xs")
  case (Inl e')
  then show ?thesis by blast
next
  case (Inr ys)
  obtain i where i: "i < length xs" "xs ! i = x"
    using assms(1) by (auto simp: in_set_conv_nth)
  have "f (xs ! i) = Inr (ys ! i)" using mapM_nth [OF Inr i(1)] .
  then show ?thesis using assms(2) i(2) by simp
qed

lemma exact_inv_error: "exact_inv m = Inl e \<Longrightarrow> e = LinAlgError"
  by (auto simp: exact_inv_def Let_def split: prod.splits option.splits if_splits)

lemma exact_inv_identity: "exact_inv (to22 identity22) = Inr (to22 identity22)"
  by (simp add: exact_inv_def to22_def identity22_def)

lemma dot_identity:
  assumes "length gc = 4"
  shows "flatten22 (dot (to22 gc) (to22 identity22)) = nan_spread gc"
proof -
  obtain a b c d where gc: "gc = [a, b, c, d]" using assms length4E by blast
  show ?thesis
    unfolding gc
    by (cases a; cases b; cases c; cases d)
       (simp_all add: dot_def to22_def identity22_def flatten22_def cadd_def cmul_def
          nan_spread_def)
qed

lemma nan_spread_uniform:
  assumes "length gc = 4" and "row_uniform gc"
  shows "nan_spread gc = gc"
proof -
  obtain a b c d where gc: "gc = [a, b, c, d]" using assms(1) length4E by blast
  show ?thesis
    using assms(2) unfolding gc
    by (cases a; cases b; cases c; cases d) (simp_all add: nan_spread_def row_uniform_def)
qed

subsection \<open>Reference-antenna auto-selection\<close>

lemma iterate_refant_loop_skip:
  "k \<le> length flags \<Longrightarrow> (\<forall>j. 1 \<le> j \<and> j \<le> k \<longrightarrow> flags ! (length flags - j) \<noteq> 0) \<Longrightarrow>
   iterate_refant_loop flags (- 1) = iterate_refant_loop flags (- int k - 1)"
proof (induction k)
  case 0
  then show ?case by simp
next
  case (Suc k)
  have nz: "flags ! (length flags - Suc k) \<noteq> 0"
    using Suc.prems by auto
  have idx: "nat (int (length flags) + (- int k - 1)) = length flags - Suc k"
    using Suc.prems by auto
  have "iterate_refant_loop flags (- 1) = iterate_refant_loop flags (- int k - 1)"
    using Suc by auto
  also have "\<dots> = iterate_refant_loop flags (- int k - 1 - 1)"
    using Suc.prems nz idx by (subst iterate_refant_loop.simps) auto
  finally show ?case by (simp add: algebra_simps)
qed

lemma iterate_refant_loop_all_flagged:
  assumes "\<forall>x\<in>set flags. x \<noteq> 0"
  shows "iterate_refant_loop flags (- 1) = Inl IndexError"
proof -
  have "iterate_refant_loop flags (- 1) = iterate_refant_loop flags (- int (length flags) - 1)"
    using assms by (intro iterate_refant_loop_skip) auto
  also have "\<dots> = Inl IndexError"
    by (subst iterate_refant_loop.simps) auto
  finally show ?thesis .
qed

lemma iterate_refant_loop_first_unflagged:
  assumes "\<forall>x\<in>set suf. x \<noteq> 0"
  shows "iterate_refant_loop (pre @ 0 # suf) (- 1) = Inr (- int (length suf) - 1)"
proof -
  let ?fl = "pre @ 0 # suf"
  have "\<forall>j. 1 \<le> j \<and> j \<le> length suf \<longrightarrow> ?fl ! (length ?fl - j) \<noteq> 0"
  proof (intro allI impI)
    fix j assume j: "1 \<le> j \<and> j \<le> length suf"
    then have "length ?fl - j = length pre + Suc (length suf - j)"
      by (simp add: Suc_diff_le)
    then have "?fl ! (length ?fl - j) = (0 # suf) ! Suc (length suf - j)"
      by (simp only: nth_append_length_plus)
    then have "?fl ! (length ?fl - j) = suf ! (length suf - j)"
      by simp
    moreover have "suf ! (length suf - j) \<in> set suf" using j by (intro nth_mem) auto
    ultimately show "?fl ! (length ?fl - j) \<noteq> 0" using assms by auto
  qed
  then have "iterate_refant_loop ?fl (- 1) = iterate_refant_loop ?fl (- int (length suf) - 1)"
    by (intro iterate_refant_loop_skip) auto
  also have "\<dots> = Inr (- int (length suf) - 1)"
    by (subst iterate_refant_loop.simps) (auto simp: nth_append)
  finally show ?thesis .
qed

text \<open>
  Claim C2, as the code has it. With the antenna numbers and the flags of one antenna
  table (equal lengths), \<^verbatim>\<open>_iterate_refant\<close> scans the flags from the last index
  backward and returns the antenna number at the first unflagged position it meets:
  when the flags are \<open>pre @ 0 # suf\<close> with every flag of \<open>suf\<close> nonzero, it returns the
  antenna number at position \<open>length pre\<close>. When every antenna is flagged the scan
  terminates by running off the front of the flag list, and the failure is Python's
  IndexError; the code has no dedicated error for an unusable antenna table.
\<close>

theorem iterate_refant_scan:
  assumes "antenna self = Some ants" and "antenna_flags self = Some flags"
    and "length ants = length flags"
  shows "(\<forall>pre suf. flags = pre @ 0 # suf \<and> (\<forall>x\<in>set suf. x \<noteq> 0)
            \<longrightarrow> iterate_refant self = Inr (ants ! length pre))
       \<and> ((\<forall>x\<in>set flags. x \<noteq> 0) \<longrightarrow> iterate_refant self = Inl IndexError)"
proof (intro conjI allI impI)
  fix pre suf
  assume h: "flags = pre @ 0 # suf \<and> (\<forall>x\<in>set suf. x \<noteq> 0)"
  then have loop: "iterate_refant_loop flags (- 1) = Inr (- int (length suf) - 1)"
    using iterate_refant_loop_first_unflagged by simp
  have len: "length ants = length pre + Suc (length suf)"
    using assms(3) h by simp
  have "py_get ants (- int (length suf) - 1) = Inr (ants ! length pre)"
    using len by (auto simp: py_get_def py_index_def)
  then show "iterate_refant self = Inr (ants ! length pre)"
    using assms loop by (simp add: iterate_refant_def getattr_def)
next
  assume "\<forall>x\<in>set flags. x \<noteq> 0"
  then show "iterate_refant self = Inl IndexError"
    using assms iterate_refant_loop_all_flagged by (simp add: iterate_refant_def getattr_def)
qed

theorem iterate_refant_scan_witness:
  "iterate_refant tiles_a = Inr 11 \<and> iterate_refant tiles_b = Inl IndexError"
proof -
  have ta: "antenna tiles_a = Some [10, 11, 12, 13]" "antenna_flags tiles_a = Some [0, 0, 1, 1]"
    by (simp_all add: tiles_a_def)
  have tb: "antenna tiles_b = Some [10, 11]" "antenna_flags tiles_b = Some [1, 1]"
    by (simp_all add: tiles_b_def)
  have la: "length [10, 11, 12, 13 :: int] = length [0, 0, 1, 1 :: int]" by simp
  have lb: "length [10, 11 :: int] = length [1, 1 :: int]" by simp
  have a: "[0, 0, 1, 1] = [0] @ 0 # [1, 1::int] \<and> (\<forall>x\<in>set [1, 1::int]. x \<noteq> 0)" by simp
  have b: "\<forall>x\<in>set [1, 1::int]. x \<noteq> 0" by simp
  have "iterate_refant tiles_a = Inr ([10, 11, 12, 13] ! length [0::int])"
    using iterate_refant_scan [OF ta la, THEN conjunct1, THEN spec, THEN spec, THEN mp, OF a] .
  moreover have "iterate_refant tiles_b = Inl IndexError"
    using iterate_refant_scan [OF tb lb, THEN conjunct2, THEN mp, OF b] .
  ultimately show ?thesis by simp
qed

text \<open>
  The claim as stated names a dedicated error. On the table with antennas 10 and 11,
  both flagged, the scan fails with IndexError.
\<close>

theorem iterate_refant_all_flagged_counterexample:
  "iterate_refant tiles_b = Inl IndexError"
  unfolding tiles_b_def iterate_refant_def getattr_def
  by (simp add: iterate_refant_loop.simps)

subsection \<open>Antenna pairs\<close>

lemma np_conj_cmul: "np_conj (cmul x (np_conj y)) = cmul y (np_conj x)"
  by (cases x; cases y) (simp_all add: np_conj_def cmul_def mult.commute)

lemma map_map2_swap:
  assumes "\<And>x y. f (g x (k y)) = g y (k x)"
  shows "map f (map2 g xs (map k ys)) = map2 g ys (map k xs)"
proof (induction xs arbitrary: ys)
  case Nil
  then show ?case by simp
next
  case (Cons x xs)
  then show ?case using assms by (cases ys) simp_all
qed

lemma ew3_conj_swap:
  "map3 np_conj (ew3 cmul xs (map3 np_conj ys)) = ew3 cmul ys (map3 np_conj xs)"
  unfolding map3_def ew3_def
  by (intro map_map2_swap np_conj_cmul)

text \<open>
  Claim C8. For antenna numbers \<open>a\<close> and \<open>b\<close> that \<^verbatim>\<open>gains_for_antnum\<close> accepts,
  \<^verbatim>\<open>gains_for_antpair((a, b))\<close> is the elementwise product of the gains of \<open>a\<close> with
  the complex conjugate of the gains of \<open>b\<close>, and \<^verbatim>\<open>gains_for_antpair((b, a))\<close> is the
  elementwise complex conjugate of \<^verbatim>\<open>gains_for_antpair((a, b))\<close>.
\<close>

theorem gains_for_antpair_conj:
  assumes "gains_for_antnum self h a = Inr ga" and "gains_for_antnum self h b = Inr gb"
  shows "gains_for_antpair self h (a, b) = Inr (ew3 cmul ga (map3 np_conj gb))
       \<and> gains_for_antpair self h (b, a) = Inr (map3 np_conj (ew3 cmul ga (map3 np_conj gb)))"
  using assms by (simp add: gains_for_antpair_def ew3_conj_swap)

theorem gains_for_antpair_conj_witness:
  "gains_for_antpair store_pair heap_pair (0, 1) = Inr [[[Some \<i>, Some (- (2 * \<i>)), Some 0, None]]]
 \<and> gains_for_antpair store_pair heap_pair (1, 0) = Inr [[[Some (- \<i>), Some (2 * \<i>), Some 0, None]]]"
proof -
  have a: "gains_for_antnum store_pair heap_pair 0 = Inr [[[Some \<i>, Some 2, Some 0, None]]]"
    by (simp add: gains_for_antnum_def gains_ind_for_def store_pair_def heap_pair_def
          py_get_def py_index_def)
  have b: "gains_for_antnum store_pair heap_pair 1 = Inr [[[Some 1, Some \<i>, Some 3, Some 1]]]"
    by (simp add: gains_for_antnum_def gains_ind_for_def store_pair_def heap_pair_def
          py_get_def py_index_def)
  show ?thesis
    using gains_for_antpair_conj [OF a b]
    by (simp add: ew3_def map3_def cmul_def np_conj_def)
qed

subsection \<open>Normalization of one timeblock\<close>

lemma py_index_less: "py_index n r = Inr ri \<Longrightarrow> ri < n"
  by (auto simp: py_index_def split: if_splits)

lemma normalized_data_unfold:
  assumes sh: "tile_shape data nchan"
    and r: "ref_antenna self = Some r" and ri: "py_index (length data) r = Inr ri"
  shows "normalized_data linalg_inv self data =
     (case mapM linalg_inv (map to22 (data ! ri)) of
        Inl e \<Rightarrow> Inl e
      | Inr refs \<Rightarrow>
          Inr (map (\<lambda>tile_i. map (\<lambda>(i, ref). flatten22 (dot (to22 i) ref)) (zip tile_i refs)) data))"
proof -
  have lt: "ri < length data" using ri by (rule py_index_less)
  then have mem: "data ! ri \<in> set data" by simp
  have g: "py_get data (gains_ind_for r) = Inr (data ! ri)"
    using ri by (simp add: py_get_def gains_ind_for_def)
  have rs: "reshape_n22 (data ! ri) = Inr (map to22 (data ! ri))"
    using sh mem by (intro reshape_n22_rows) (auto simp: tile_shape_def)
  have inner: "mapM (\<lambda>tile_i. mapM (\<lambda>(i, ref). case reshape22 i of Inl e \<Rightarrow> Inl e
                                        | Inr m \<Rightarrow> Inr (flatten22 (dot m ref))) (zip tile_i refs)) data
      = Inr (map (\<lambda>tile_i. map (\<lambda>(i, ref). flatten22 (dot (to22 i) ref)) (zip tile_i refs)) data)"
    for refs
  proof (rule mapM_Inr, rule ballI)
    fix tile_i assume t: "tile_i \<in> set data"
    show "mapM (\<lambda>(i, ref). case reshape22 i of Inl e \<Rightarrow> Inl e
                 | Inr m \<Rightarrow> Inr (flatten22 (dot m ref))) (zip tile_i refs)
        = Inr (map (\<lambda>(i, ref). flatten22 (dot (to22 i) ref)) (zip tile_i refs))"
    proof (rule mapM_Inr, rule ballI)
      fix p assume p: "p \<in> set (zip tile_i refs)"
      obtain i ref where pr: "p = (i, ref)" by (cases p)
      then have "i \<in> set tile_i" using p by (auto dest: set_zip_leftD)
      then have "length i = 4" using sh t by (auto simp: tile_shape_def)
      then show "(case p of (i, ref) \<Rightarrow> case reshape22 i of Inl e \<Rightarrow> Inl e
                   | Inr m \<Rightarrow> Inr (flatten22 (dot m ref)))
          = Inr (case p of (i, ref) \<Rightarrow> flatten22 (dot (to22 i) ref))"
        unfolding pr by (simp add: reshape22_len4)
    qed
  qed
  show ?thesis
    unfolding normalized_data_def
    by (simp add: r getattr_def g rs inner split: sum.splits)
qed

lemma normalized_data_raises:
  assumes sh: "tile_shape data nchan"
    and r: "ref_antenna self = Some r" and ri: "py_index (length data) r = Inr ri"
    and c: "c < nchan" and s: "linalg_inv (to22 (data ! ri ! c)) = Inl e"
  shows "\<exists>e'. normalized_data linalg_inv self data = Inl e'"
proof -
  have lt: "ri < length data" using ri by (rule py_index_less)
  then have mem: "data ! ri \<in> set data" by simp
  then have len: "length (data ! ri) = nchan" using sh by (simp add: tile_shape_def)
  then have cm: "data ! ri ! c \<in> set (data ! ri)" using c by simp
  have "to22 (data ! ri ! c) \<in> set (map to22 (data ! ri))" using cm by simp
  from mapM_some_error [where f = linalg_inv, OF this s]
  obtain e' where "mapM linalg_inv (map to22 (data ! ri)) = Inl e'" by (elim exE)
  then show ?thesis
    using normalized_data_unfold [OF sh r ri] by simp
qed

lemma normalized_data_only_error:
  assumes sh: "tile_shape data nchan"
    and r: "ref_antenna self = Some r" and ri: "py_index (length data) r = Inr ri"
    and only: "\<forall>m e. linalg_inv m = Inl e \<longrightarrow> e = E"
    and raised: "normalized_data linalg_inv self data = Inl e"
  shows "e = E"
proof (cases "mapM linalg_inv (map to22 (data ! ri))")
  case (Inl e')
  have "\<forall>x\<in>set (map to22 (data ! ri)). \<forall>e. linalg_inv x = Inl e \<longrightarrow> e = E"
    using only by blast
  then have "e' = E" using Inl by (rule mapM_only_error)
  then show ?thesis using normalized_data_unfold [OF sh r ri] Inl raised by simp
next
  case (Inr refs)
  then show ?thesis using normalized_data_unfold [OF sh r ri] raised by simp
qed

lemma normalized_data_identity:
  assumes sh: "tile_shape data nchan"
    and r: "ref_antenna self = Some r" and ri: "py_index (length data) r = Inr ri"
    and idm: "\<forall>c<nchan. data ! ri ! c = identity22"
    and inv: "linalg_inv (to22 identity22) = Inr (to22 identity22)"
  shows "normalized_data linalg_inv self data = Inr (map (map nan_spread) data)"
proof -
  have lt: "ri < length data" using ri by (rule py_index_less)
  then have mem: "data ! ri \<in> set data" by simp
  then have len: "length (data ! ri) = nchan" using sh by (simp add: tile_shape_def)
  have allid: "\<forall>x\<in>set (map to22 (data ! ri)). linalg_inv x = Inr (id x)"
  proof
    fix x assume "x \<in> set (map to22 (data ! ri))"
    then obtain c where "c < nchan" "x = to22 (data ! ri ! c)"
      using len by (auto simp: in_set_conv_nth)
    then show "linalg_inv x = Inr (id x)" using idm inv by simp
  qed
  have refs: "mapM linalg_inv (map to22 (data ! ri)) = Inr (map to22 (data ! ri))"
    using mapM_Inr [OF allid] by simp
  have "map (\<lambda>tile_i. map (\<lambda>(i, ref). flatten22 (dot (to22 i) ref))
                (zip tile_i (map to22 (data ! ri)))) data = map (map nan_spread) data"
  proof (rule map_cong [OF refl])
    fix tile_i assume t: "tile_i \<in> set data"
    then have tl: "length tile_i = nchan" using sh by (simp add: tile_shape_def)
    show "map (\<lambda>(i, ref). flatten22 (dot (to22 i) ref)) (zip tile_i (map to22 (data ! ri)))
          = map nan_spread tile_i"
    proof (rule nth_equalityI)
      show "length (map (\<lambda>(i, ref). flatten22 (dot (to22 i) ref))
               (zip tile_i (map to22 (data ! ri)))) = length (map nan_spread tile_i)"
        using tl len by simp
    next
      fix c assume "c < length (map (\<lambda>(i, ref). flatten22 (dot (to22 i) ref))
               (zip tile_i (map to22 (data ! ri))))"
      then have c: "c < nchan" using tl len by simp
      then have m: "tile_i ! c \<in> set tile_i" using tl by simp
      then have l4: "length (tile_i ! c) = 4" using sh t by (auto simp: tile_shape_def)
      have "map (\<lambda>(i, ref). flatten22 (dot (to22 i) ref)) (zip tile_i (map to22 (data ! ri))) ! c
            = flatten22 (dot (to22 (tile_i ! c)) (to22 (data ! ri ! c)))"
        using c tl len by simp
      also have "\<dots> = nan_spread (tile_i ! c)"
        using idm c dot_identity [OF l4] by simp
      finally show "map (\<lambda>(i, ref). flatten22 (dot (to22 i) ref))
               (zip tile_i (map to22 (data ! ri))) ! c = map nan_spread tile_i ! c"
        using c tl by simp
    qed
  qed
  then show ?thesis
    using normalized_data_unfold [OF sh r ri] refs by simp
qed

subsection \<open>The normalization loop\<close>

lemma normalized_gains_loop_frame:
  assumes "ng \<noteq> gain_array self" and "ng < length h"
    and "normalized_gains_loop linalg_inv self ng ts h = (r, h')"
  shows "length h' = length h \<and> (\<forall>b. b \<noteq> ng \<longrightarrow> h' ! b = h ! b)
       \<and> length (h' ! ng) = length (h ! ng)"
  using assms
proof (induction ts arbitrary: h)
  case Nil
  then show ?case by simp
next
  case (Cons t ts)
  show ?case
  proof (cases "normalized_data linalg_inv self ((h ! gain_array self) ! t)")
    case (Inl e)
    then show ?thesis using Cons.prems by simp
  next
    case (Inr row)
    let ?h1 = "h[ng := (h ! ng)[t := row]]"
    have step: "normalized_gains_loop linalg_inv self ng ts ?h1 = (r, h')"
      using Cons.prems(3) Inr by simp
    have "ng < length ?h1" using Cons.prems(2) by simp
    from Cons.IH [OF Cons.prems(1) this step]
    show ?thesis using Cons.prems(2) by simp
  qed
qed

lemma normalized_gains_loop_rows:
  assumes "ng \<noteq> gain_array self" and "ng < length h" and "distinct ts"
    and "\<forall>t\<in>set ts. t < length (h ! ng)"
    and "normalized_gains_loop linalg_inv self ng ts h = (None, h')"
  shows "(\<forall>t\<in>set ts. normalized_data linalg_inv self ((h ! gain_array self) ! t)
             = Inr ((h' ! ng) ! t))
       \<and> (\<forall>t. t \<notin> set ts \<longrightarrow> (h' ! ng) ! t = (h ! ng) ! t)"
  using assms
proof (induction ts arbitrary: h)
  case Nil
  then show ?case by simp
next
  case (Cons t ts)
  show ?case
  proof (cases "normalized_data linalg_inv self ((h ! gain_array self) ! t)")
    case (Inl e)
    then show ?thesis using Cons.prems by simp
  next
    case (Inr row)
    let ?h1 = "h[ng := (h ! ng)[t := row]]"
    have step: "normalized_gains_loop linalg_inv self ng ts ?h1 = (None, h')"
      using Cons.prems(5) Inr by simp
    have l1: "ng < length ?h1" using Cons.prems(2) by simp
    have same: "?h1 ! gain_array self = h ! gain_array self"
      using Cons.prems(1) by simp
    have upd: "?h1 ! ng = (h ! ng)[t := row]" using Cons.prems(2) by simp
    have d: "distinct ts" and tn: "t \<notin> set ts" using Cons.prems(3) by simp_all
    have b: "\<forall>t\<in>set ts. t < length (?h1 ! ng)" using Cons.prems(4) upd by simp
    have tl: "t < length (h ! ng)" using Cons.prems(4) by simp
    from Cons.IH [OF Cons.prems(1) l1 d b step]
    have ih1: "\<forall>u\<in>set ts. normalized_data linalg_inv self ((h ! gain_array self) ! u)
                  = Inr ((h' ! ng) ! u)"
      and ih2: "\<forall>u. u \<notin> set ts \<longrightarrow> (h' ! ng) ! u = (h ! ng)[t := row] ! u"
      using same upd by simp_all
    have "(h' ! ng) ! t = row" using ih2 tn tl by simp
    then have "normalized_data linalg_inv self ((h ! gain_array self) ! t) = Inr ((h' ! ng) ! t)"
      using Inr by simp
    moreover have "\<forall>u. u \<notin> set (t # ts) \<longrightarrow> (h' ! ng) ! u = (h ! ng) ! u"
      using ih2 by auto
    ultimately show ?thesis using ih1 by simp
  qed
qed

lemma normalized_gains_loop_raises:
  assumes "ng \<noteq> gain_array self" and "ng < length h"
    and "\<exists>t\<in>set ts. \<exists>e. normalized_data linalg_inv self ((h ! gain_array self) ! t) = Inl e"
  shows "\<exists>e. fst (normalized_gains_loop linalg_inv self ng ts h) = Some e
           \<and> (\<exists>t\<in>set ts. normalized_data linalg_inv self ((h ! gain_array self) ! t) = Inl e)"
  using assms
proof (induction ts arbitrary: h)
  case Nil
  then show ?case by simp
next
  case (Cons t ts)
  show ?case
  proof (cases "normalized_data linalg_inv self ((h ! gain_array self) ! t)")
    case (Inl e)
    then have "fst (normalized_gains_loop linalg_inv self ng (t # ts) h) = Some e" by simp
    then show ?thesis using Inl by auto
  next
    case (Inr row)
    let ?h1 = "h[ng := (h ! ng)[t := row]]"
    have same: "?h1 ! gain_array self = h ! gain_array self"
      using Cons.prems(1) by simp
    have l1: "ng < length ?h1" using Cons.prems(2) by simp
    have p: "\<exists>t\<in>set ts. \<exists>e. normalized_data linalg_inv self ((?h1 ! gain_array self) ! t) = Inl e"
      using Cons.prems(3) Inr same by auto
    from Cons.IH [OF Cons.prems(1) l1 p]
    obtain e where e: "fst (normalized_gains_loop linalg_inv self ng ts ?h1) = Some e"
      and u: "\<exists>t\<in>set ts. normalized_data linalg_inv self ((?h1 ! gain_array self) ! t) = Inl e"
      by (elim exE conjE)
    have "fst (normalized_gains_loop linalg_inv self ng (t # ts) h) = Some e"
      using e Inr by simp
    moreover have "\<exists>u\<in>set (t # ts). normalized_data linalg_inv self ((h ! gain_array self) ! u) = Inl e"
      using u same by auto
    ultimately show ?thesis by blast
  qed
qed

lemma normalized_gains_loop_total:
  assumes "ng \<noteq> gain_array self" and "ng < length h"
    and "\<forall>t\<in>set ts. \<exists>row. normalized_data linalg_inv self ((h ! gain_array self) ! t) = Inr row"
  shows "fst (normalized_gains_loop linalg_inv self ng ts h) = None"
  using assms
proof (induction ts arbitrary: h)
  case Nil
  then show ?case by simp
next
  case (Cons t ts)
  obtain row where row: "normalized_data linalg_inv self ((h ! gain_array self) ! t) = Inr row"
    using Cons.prems(3) by auto
  let ?h1 = "h[ng := (h ! ng)[t := row]]"
  have same: "?h1 ! gain_array self = h ! gain_array self"
    using Cons.prems(1) by simp
  have l1: "ng < length ?h1" using Cons.prems(2) by simp
  have p: "\<forall>t\<in>set ts. \<exists>row. normalized_data linalg_inv self ((?h1 ! gain_array self) ! t) = Inr row"
    using Cons.prems(3) same by simp
  show ?case using Cons.IH [OF Cons.prems(1) l1 p] row by simp
qed

subsection \<open>Normalization of the whole gain array\<close>

lemma normalized_gains_unfold:
  assumes "gain_array self < length h"
  shows "normalized_gains linalg_inv self h =
     (case normalized_gains_loop linalg_inv self (length h) [0..<length (h ! gain_array self)]
             (h @ [h ! gain_array self]) of
        (Some e, h2) \<Rightarrow> (Inl e, h2)
      | (None, h2) \<Rightarrow> (Inr (length h), h2))"
  by (simp add: normalized_gains_def alloc_def split: prod.splits option.splits)

text \<open>
  Claim C10. \<^verbatim>\<open>normalized_gains\<close> leaves every array object that existed before the
  call as it was, on every path, the store's gain array among them: the store of array
  objects grows by exactly one object. When the call returns, the returned address is
  that new object, distinct from the address of the input array, and row \<open>t\<close> of it is
  \<^verbatim>\<open>_normalized_data\<close> applied to row \<open>t\<close> of the original input array.
\<close>

theorem normalized_gains_fresh_output:
  assumes "gain_array self < length h" and "normalized_gains linalg_inv self h = (res, h')"
  shows "length h' = Suc (length h) \<and> (\<forall>b<length h. h' ! b = h ! b)
       \<and> (\<forall>ngains. res = Inr ngains \<longrightarrow>
            ngains = length h \<and> ngains \<noteq> gain_array self
          \<and> length (h' ! ngains) = length (h ! gain_array self)
          \<and> (\<forall>t<length (h ! gain_array self).
                normalized_data linalg_inv self ((h ! gain_array self) ! t)
                  = Inr ((h' ! ngains) ! t)))"
proof -
  let ?a = "gain_array self" and ?ng = "length h"
  let ?h1 = "h @ [h ! gain_array self]"
  let ?ts = "[0..<length (h ! ?a)]"
  obtain raised h2 where loop: "normalized_gains_loop linalg_inv self ?ng ?ts ?h1 = (raised, h2)"
    by (cases "normalized_gains_loop linalg_inv self ?ng ?ts ?h1")
  have ne: "?ng \<noteq> ?a" using assms(1) by simp
  have l1: "?ng < length ?h1" by simp
  have h1a: "?h1 ! ?a = h ! ?a" using assms(1) by (simp add: nth_append)
  have h1n: "?h1 ! ?ng = h ! ?a" by simp
  have res: "res = (case raised of Some e \<Rightarrow> Inl e | None \<Rightarrow> Inr ?ng)" and h': "h' = h2"
    using assms(2) normalized_gains_unfold [OF assms(1)] loop
    by (auto split: option.splits)
  from normalized_gains_loop_frame [OF ne l1 loop]
  have fr: "length h2 = length ?h1" "\<forall>b. b \<noteq> ?ng \<longrightarrow> h2 ! b = ?h1 ! b"
    "length (h2 ! ?ng) = length (?h1 ! ?ng)" by simp_all
  have A: "length h' = Suc (length h)" using fr(1) h' by simp
  have B: "\<forall>b<length h. h' ! b = h ! b"
    using fr(2) h' by (simp add: nth_append)
  have C: "\<forall>ngains. res = Inr ngains \<longrightarrow>
            ngains = length h \<and> ngains \<noteq> gain_array self
          \<and> length (h' ! ngains) = length (h ! gain_array self)
          \<and> (\<forall>t<length (h ! gain_array self).
                normalized_data linalg_inv self ((h ! gain_array self) ! t)
                  = Inr ((h' ! ngains) ! t))"
  proof (intro allI impI)
    fix ngains assume r: "res = Inr ngains"
    then have none: "raised = None" and ng: "ngains = ?ng"
      using res by (auto split: option.splits)
    have loop': "normalized_gains_loop linalg_inv self ?ng ?ts ?h1 = (None, h2)"
      using loop none by simp
    have b: "\<forall>t\<in>set ?ts. t < length (?h1 ! ?ng)" by simp
    from normalized_gains_loop_rows [OF ne l1 _ b loop']
    have "\<forall>t\<in>set ?ts. normalized_data linalg_inv self ((?h1 ! ?a) ! t) = Inr ((h2 ! ?ng) ! t)"
      by simp
    then have rows: "\<forall>t<length (h ! ?a).
        normalized_data linalg_inv self ((h ! ?a) ! t) = Inr ((h' ! ngains) ! t)"
      using h1a h' ng by simp
    show "ngains = length h \<and> ngains \<noteq> gain_array self
          \<and> length (h' ! ngains) = length (h ! gain_array self)
          \<and> (\<forall>t<length (h ! gain_array self).
                normalized_data linalg_inv self ((h ! gain_array self) ! t)
                  = Inr ((h' ! ngains) ! t))"
      using ng ne fr(3) h' rows by simp
  qed
  show ?thesis using A B C by blast
qed

text \<open>
  Claim C3, as the code has it. On a gain array of shape (Ntime, Nant, Nchan, 4), if
  at some timeblock and channel \<^verbatim>\<open>np.linalg.inv\<close> raises LinAlgError on the reference
  antenna's Jones matrix (as it does on the zero matrix), nothing catches the
  exception and \<^verbatim>\<open>normalized_gains\<close> as a whole ends with an exception: no NaN entries
  are substituted for the channel and no normalized array is returned for any channel
  or timeblock. The exception is LinAlgError, that being the only exception the
  inversion raises.
\<close>

theorem normalized_gains_inversion_error_aborts:
  assumes a: "gain_array self < length h"
    and sh: "shape_ok (h ! gain_array self) nant nchan"
    and r: "ref_antenna self = Some r" and ri: "py_index nant r = Inr ri"
    and t: "t < length (h ! gain_array self)" and c: "c < nchan"
    and s: "linalg_inv (to22 (h ! gain_array self ! t ! ri ! c)) = Inl LinAlgError"
  shows "(\<exists>e. fst (normalized_gains linalg_inv self h) = Inl e)
       \<and> ((\<forall>m e. linalg_inv m = Inl e \<longrightarrow> e = LinAlgError) \<longrightarrow>
            fst (normalized_gains linalg_inv self h) = Inl LinAlgError)"
proof -
  let ?a = "gain_array self" and ?ng = "length h"
  let ?h1 = "h @ [h ! gain_array self]"
  let ?ts = "[0..<length (h ! ?a)]"
  have ne: "?ng \<noteq> ?a" using a by simp
  have l1: "?ng < length ?h1" by simp
  have h1a: "?h1 ! ?a = h ! ?a" using a by (simp add: nth_append)
  have tile: "length (h ! ?a ! u) = nant \<and> tile_shape (h ! ?a ! u) nchan"
    if "u < length (h ! ?a)" for u
    using sh that by (simp add: shape_ok_def)
  have "py_index (length (h ! ?a ! t)) r = Inr ri" using tile [OF t] ri by simp
  from normalized_data_raises [where linalg_inv = linalg_inv, OF _ r this c s] tile [OF t]
  have "\<exists>e'. normalized_data linalg_inv self ((?h1 ! ?a) ! t) = Inl e'"
    unfolding h1a by blast
  then have p: "\<exists>u\<in>set ?ts. \<exists>e. normalized_data linalg_inv self ((?h1 ! ?a) ! u) = Inl e"
    using t by auto
  from normalized_gains_loop_raises [OF ne l1 p]
  obtain e u where e: "fst (normalized_gains_loop linalg_inv self ?ng ?ts ?h1) = Some e"
    and u: "u \<in> set ?ts" "normalized_data linalg_inv self ((?h1 ! ?a) ! u) = Inl e"
    by (elim exE conjE bexE)
  have A: "fst (normalized_gains linalg_inv self h) = Inl e"
    using normalized_gains_unfold [OF a] e
    by (cases "normalized_gains_loop linalg_inv self ?ng ?ts ?h1") simp
  have B: "e = LinAlgError" if only: "\<forall>m e. linalg_inv m = Inl e \<longrightarrow> e = LinAlgError"
  proof -
    have ul: "u < length (h ! ?a)" using u(1) by simp
    have pi: "py_index (length (h ! ?a ! u)) r = Inr ri" using tile [OF ul] ri by simp
    have ts: "tile_shape (h ! ?a ! u) nchan" using tile [OF ul] by simp
    have "normalized_data linalg_inv self (h ! ?a ! u) = Inl e" using u(2) h1a by simp
    from normalized_data_only_error [OF ts r pi only this] show ?thesis .
  qed
  show ?thesis using A B by blast
qed

text \<open>
  Claim C4, as the code has it. On a gain array of shape (Ntime, Nant, Nchan, 4) whose
  reference antenna has the identity Jones matrix at every timeblock and channel,
  \<^verbatim>\<open>normalized_gains\<close> returns a new array in which every row of every Jones matrix that
  holds a NaN is NaN in both entries and every other entry is as in the input. So the
  gains are unchanged wherever no row of a Jones matrix mixes a NaN with a finite
  entry, in particular in every Jones matrix that is wholly finite or wholly NaN.
  (Of \<^verbatim>\<open>np.linalg.inv\<close> this assumes that it returns the identity on the identity.)
\<close>

theorem normalized_gains_identity_reference:
  assumes a: "gain_array self < length h"
    and sh: "shape_ok (h ! gain_array self) nant nchan"
    and r: "ref_antenna self = Some r" and ri: "py_index nant r = Inr ri"
    and idm: "\<forall>gt\<in>set (h ! gain_array self). \<forall>c<nchan. gt ! ri ! c = identity22"
    and inv: "linalg_inv (to22 identity22) = Inr (to22 identity22)"
  shows "normalized_gains linalg_inv self h
           = (Inr (length h), h @ [map3 nan_spread (h ! gain_array self)])
       \<and> ((\<forall>gt\<in>set (h ! gain_array self). \<forall>ga\<in>set gt. \<forall>gc\<in>set ga. row_uniform gc) \<longrightarrow>
            normalized_gains linalg_inv self h = (Inr (length h), h @ [h ! gain_array self]))"
proof -
  let ?a = "gain_array self" and ?ng = "length h"
  let ?g = "h ! gain_array self"
  let ?h1 = "h @ [h ! gain_array self]"
  let ?ts = "[0..<length (h ! ?a)]"
  have ne: "?ng \<noteq> ?a" using a by simp
  have l1: "?ng < length ?h1" by simp
  have h1a: "?h1 ! ?a = ?g" using a by (simp add: nth_append)
  have rows: "\<forall>u\<in>set ?ts. normalized_data linalg_inv self ((?h1 ! ?a) ! u)
                 = Inr (map (map nan_spread) (?g ! u))"
  proof
    fix u assume "u \<in> set ?ts"
    then have u: "?g ! u \<in> set ?g" by simp
    have ts: "tile_shape (?g ! u) nchan" and len: "length (?g ! u) = nant"
      using sh u by (auto simp: shape_ok_def)
    have pi: "py_index (length (?g ! u)) r = Inr ri" using len ri by simp
    have im: "\<forall>c<nchan. ?g ! u ! ri ! c = identity22" using idm u by blast
    show "normalized_data linalg_inv self ((?h1 ! ?a) ! u) = Inr (map (map nan_spread) (?g ! u))"
      unfolding h1a
      using normalized_data_identity [where linalg_inv = linalg_inv, OF ts r pi im inv] .
  qed
  then have tot: "\<forall>u\<in>set ?ts. \<exists>row. normalized_data linalg_inv self ((?h1 ! ?a) ! u) = Inr row"
    by blast
  have "fst (normalized_gains_loop linalg_inv self ?ng ?ts ?h1) = None"
    using normalized_gains_loop_total [OF ne l1 tot] .
  then obtain h2 where loop: "normalized_gains_loop linalg_inv self ?ng ?ts ?h1 = (None, h2)"
    by (cases "normalized_gains_loop linalg_inv self ?ng ?ts ?h1") simp
  from normalized_gains_loop_frame [OF ne l1 loop]
  have fr: "length h2 = length ?h1" "\<forall>b. b \<noteq> ?ng \<longrightarrow> h2 ! b = ?h1 ! b"
    "length (h2 ! ?ng) = length ?g" by simp_all
  have b: "\<forall>t\<in>set ?ts. t < length (?h1 ! ?ng)" by simp
  from normalized_gains_loop_rows [OF ne l1 _ b loop]
  have nr: "\<forall>t\<in>set ?ts. normalized_data linalg_inv self ((?h1 ! ?a) ! t) = Inr ((h2 ! ?ng) ! t)"
    by simp
  have new: "h2 ! ?ng = map3 nan_spread ?g"
  proof (rule nth_equalityI)
    show "length (h2 ! ?ng) = length (map3 nan_spread ?g)"
      using fr(3) by (simp add: map3_def)
  next
    fix t assume "t < length (h2 ! ?ng)"
    then have t: "t < length ?g" using fr(3) by simp
    then have m: "t \<in> set ?ts" by simp
    have "normalized_data linalg_inv self ((?h1 ! ?a) ! t) = Inr ((h2 ! ?ng) ! t)"
      using nr m by blast
    moreover have "normalized_data linalg_inv self ((?h1 ! ?a) ! t)
        = Inr (map (map nan_spread) (?g ! t))"
      using rows m by blast
    ultimately have "(h2 ! ?ng) ! t = map (map nan_spread) (?g ! t)" by simp
    then show "h2 ! ?ng ! t = map3 nan_spread ?g ! t" using t by (simp add: map3_def)
  qed
  have h2: "h2 = h @ [map3 nan_spread ?g]"
  proof (rule nth_equalityI)
    show "length h2 = length (h @ [map3 nan_spread ?g])" using fr(1) by simp
  next
    fix b assume "b < length h2"
    then have "b < length h \<or> b = length h" using fr(1) by auto
    then show "h2 ! b = (h @ [map3 nan_spread ?g]) ! b"
    proof
      assume bl: "b < length h"
      then have "h2 ! b = ?h1 ! b" using fr(2) by simp
      then show ?thesis using bl by (simp add: nth_append)
    next
      assume "b = length h"
      then show ?thesis using new by simp
    qed
  qed
  have main: "normalized_gains linalg_inv self h = (Inr (length h), h @ [map3 nan_spread ?g])"
    using normalized_gains_unfold [OF a] loop h2 by simp
  have same: "map3 nan_spread ?g = ?g"
    if un: "\<forall>gt\<in>set ?g. \<forall>ga\<in>set gt. \<forall>gc\<in>set ga. row_uniform gc"
    unfolding map3_def
  proof (rule map_idI)
    fix gt assume gt: "gt \<in> set ?g"
    show "map (map nan_spread) gt = gt"
    proof (rule map_idI)
      fix ga assume ga: "ga \<in> set gt"
      show "map nan_spread ga = ga"
      proof (rule map_idI)
        fix gc assume gc: "gc \<in> set ga"
        have l4: "length gc = 4"
          using sh gt ga gc by (auto simp: shape_ok_def tile_shape_def)
        have "row_uniform gc" using un gt ga gc by blast
        with l4 show "nan_spread gc = gc" by (rule nan_spread_uniform)
      qed
    qed
  qed
  show ?thesis using main same by simp
qed

lemmas eval_norm = normalized_gains_def alloc_def normalized_data_def getattr_def
  py_get_def py_index_def gains_ind_for_def reshape_n22_def exact_inv_def dot_def flatten22_def
  cadd_def cmul_def store_norm_def

lemma normalized_gains_heap_ident:
  "normalized_gains exact_inv store_norm heap_ident = (Inr 1, heap_ident @ [heap_ident ! 0])"
  by (simp add: eval_norm heap_ident_def)

theorem normalized_gains_fresh_output_witness:
  "(heap_ident @ [heap_ident ! 0]) ! 0 = heap_ident ! 0
 \<and> normalized_data exact_inv store_norm (heap_ident ! 0 ! 0)
     = Inr ((heap_ident @ [heap_ident ! 0]) ! 1 ! 0)"
proof -
  have g: "gain_array store_norm < length heap_ident"
    by (simp add: store_norm_def heap_ident_def)
  note T = normalized_gains_fresh_output [OF g normalized_gains_heap_ident]
  have l: "length heap_ident = 1" "gain_array store_norm = 0" "length (heap_ident ! 0) = 1"
    by (simp_all add: store_norm_def heap_ident_def)
  have "(heap_ident @ [heap_ident ! 0]) ! 0 = heap_ident ! 0"
    using T l by simp
  moreover have "normalized_data exact_inv store_norm (heap_ident ! 0 ! 0)
      = Inr ((heap_ident @ [heap_ident ! 0]) ! 1 ! 0)"
    using T l by simp
  ultimately show ?thesis by blast
qed

theorem normalized_gains_inversion_error_aborts_witness:
  "fst (normalized_gains exact_inv store_norm heap_sing) = Inl LinAlgError"
proof -
  have a: "gain_array store_norm < length heap_sing"
    by (simp add: store_norm_def heap_sing_def)
  have sh: "shape_ok (heap_sing ! gain_array store_norm) 2 2"
    by (simp add: store_norm_def heap_sing_def shape_ok_def tile_shape_def)
  have r: "ref_antenna store_norm = Some 1" by (simp add: store_norm_def)
  have ri: "py_index 2 1 = Inr 1" by (simp add: py_index_def)
  have t: "0 < length (heap_sing ! gain_array store_norm)"
    by (simp add: store_norm_def heap_sing_def)
  have c: "(0::nat) < 2" by simp
  have s: "exact_inv (to22 (heap_sing ! gain_array store_norm ! 0 ! 1 ! 0)) = Inl LinAlgError"
    by (simp add: store_norm_def heap_sing_def exact_inv_def to22_def)
  have only: "\<forall>m e. exact_inv m = Inl e \<longrightarrow> e = LinAlgError"
    using exact_inv_error by blast
  show ?thesis
    using normalized_gains_inversion_error_aborts [where linalg_inv = exact_inv, OF a sh r ri t c s]
      only
    by blast
qed

text \<open>
  The claim as stated promises NaN entries for the channel that cannot be inverted and
  completed results for the others. With the zero matrix at channel 0 of the reference
  antenna and the identity at channel 1, the call ends in LinAlgError; the only new
  array object is the untouched copy of the input.
\<close>

theorem normalized_gains_singular_counterexample:
  "normalized_gains exact_inv store_norm heap_sing
     = (Inl LinAlgError, heap_sing @ [heap_sing ! 0])"
  by (simp add: eval_norm heap_sing_def)

theorem normalized_gains_identity_reference_witness:
  "normalized_gains exact_inv store_norm heap_ident = (Inr 1, heap_ident @ [heap_ident ! 0])"
proof -
  have a: "gain_array store_norm < length heap_ident"
    by (simp add: store_norm_def heap_ident_def)
  have sh: "shape_ok (heap_ident ! gain_array store_norm) 2 2"
    by (simp add: store_norm_def heap_ident_def shape_ok_def tile_shape_def)
  have r: "ref_antenna store_norm = Some 1" by (simp add: store_norm_def)
  have ri: "py_index 2 1 = Inr 1" by (simp add: py_index_def)
  have idm: "\<forall>gt\<in>set (heap_ident ! gain_array store_norm). \<forall>c<2. gt ! 1 ! c = identity22"
    by (simp add: store_norm_def heap_ident_def identity22_def less_Suc_eq numeral_2_eq_2)
  have un: "\<forall>gt\<in>set (heap_ident ! gain_array store_norm). \<forall>ga\<in>set gt. \<forall>gc\<in>set ga.
              row_uniform gc"
    by (simp add: store_norm_def heap_ident_def row_uniform_def)
  have "normalized_gains exact_inv store_norm heap_ident
      = (Inr (length heap_ident), heap_ident @ [heap_ident ! gain_array store_norm])"
    using normalized_gains_identity_reference
            [where linalg_inv = exact_inv, OF a sh r ri idm exact_inv_identity] un
    by blast
  then show ?thesis by (simp add: store_norm_def heap_ident_def)
qed

text \<open>
  The claim as stated has every other antenna's gains unchanged on every valid gain
  array. Antenna 0 of \<open>heap_mixed\<close> has a NaN in XX only at channel 0 and in YY only at
  channel 1, and the reference antenna 1 is the identity at both channels: the
  normalized array has NaN also in XY at channel 0, where the input has 2, and in YX
  at channel 1, where the input has 7.
\<close>

theorem normalized_gains_identity_reference_counterexample:
  "normalized_gains exact_inv store_norm heap_mixed = (Inr 1, heap_spread)
 \<and> heap_mixed ! 0 ! 0 ! 0 ! 0 = [None, Some 2, Some 3, Some 4]
 \<and> heap_spread ! 1 ! 0 ! 0 ! 0 = [None, None, Some 3, Some 4]
 \<and> heap_mixed ! 0 ! 0 ! 0 ! 1 = [Some 5, Some 6, Some 7, None]
 \<and> heap_spread ! 1 ! 0 ! 0 ! 1 = [Some 5, Some 6, None, None]"
  by (simp add: eval_norm heap_mixed_def heap_spread_def)

subsection \<open>An explicitly supplied reference antenna\<close>

text \<open>
  With the attribute it reads in place, \<^verbatim>\<open>_check_refant\<close> lets an unflagged reference
  antenna pass and fails the assertion on a flagged one.
\<close>

lemma check_refant_flag:
  assumes "ref_antenna self = Some r" and "antenna_flag self = Some fl"
    and "py_get fl r = Inr flag"
  shows "check_refant self = (if flag = 0 then Inr () else Inl AssertionError)"
  using assms by (simp add: check_refant_def getattr_def gains_ind_for_def)

text \<open>
  Claim C9 has construction fail on a flagged explicit reference antenna because of
  its flag. \<^verbatim>\<open>_check_refant\<close> is written to assert that the flag is zero, but it reads
  \<^verbatim>\<open>self.antenna_flag\<close> where the constructor assigns \<^verbatim>\<open>self.antenna_flags\<close>: with the
  flagged antenna 0 of a one-tile table supplied as reference, construction ends in
  AttributeError, and so it does for every explicitly supplied reference antenna,
  flagged or not, whatever the tables and the gain array are. The flag is never
  looked at.
\<close>

theorem CalFits_init_explicit_refant_raises:
  "CalFits_init linalg_inv [] cal_one tile_columns tile_rows_flagged [] [] True (Some 0)
     = Inl AttributeError
 \<and> (\<forall>h cal_data tile_fields tile_data chan_fields chan_data r.
      CalFits_init linalg_inv h cal_data tile_fields tile_data chan_fields chan_data True (Some r)
        = Inl AttributeError)"
  by (simp add: CalFits_init_def alloc_def check_refant_def getattr_def)

subsection \<open>Modified z-score outlier detection\<close>

lemmas eval_stat = modz_def where_beyond_def nanmedian_def nonnan_def fsort_def fsub_def Let_def

lemma modz_ones: "modz [Fin 1, Fin 1, Fin 1, Fin 1, Fin 1] = [NaN, NaN, NaN, NaN, NaN]"
  by (simp add: eval_stat)

lemma modz_fifty: "modz [Fin 1, Fin 1, Fin 1, Fin 1, Fin 50] = [NaN, NaN, NaN, NaN, PInf]"
  by (simp add: eval_stat)

lemma beyond_none: "where_beyond 3 [NaN, NaN, NaN, NaN, NaN] = []"
  by (simp add: where_beyond_def upt_rec)

lemma beyond_four: "where_beyond 3 [NaN, NaN, NaN, NaN, PInf] = [4]"
  by (simp add: where_beyond_def upt_rec)


lemma run_metrics_store_five: "run_metrics store_five ant_threshold = Inl AttributeError"
  by (simp add: run_metrics_def initialize_metrics_dict_def getattr_def store_five_def)

text \<open>
  Every store the constructor returns lacks the attribute \<^verbatim>\<open>m_thresh\<close>, so on every
  such store \<^verbatim>\<open>run_metrics\<close> ends in the AttributeError of \<^verbatim>\<open>_initialize_metrics_dict\<close>.
\<close>

lemma CalFits_init_m_thresh:
  assumes "CalFits_init linalg_inv h cal_data tile_fields tile_data chan_fields chan_data
             norm_arg ref_antenna_arg = Inr (self, h')"
  shows "m_thresh self = None"
  using assms unfolding CalFits_init_def alloc_def
  by (auto simp: Let_def split: if_splits sum.splits option.splits prod.splits)

lemma run_metrics_after_init:
  assumes "CalFits_init linalg_inv h cal_data tile_fields tile_data chan_fields chan_data
             norm_arg ref_antenna_arg = Inr (self, h')"
  shows "run_metrics self ant_threshold = Inl AttributeError"
  using CalFits_init_m_thresh [OF assms]
  by (simp add: run_metrics_def initialize_metrics_dict_def getattr_def)

text \<open>
  Claim C7 has the modified z-score with threshold 3 flag antenna index 4 on the RMS
  series [1, 1, 1, 1, 50] and no antenna on [1, 1, 1, 1, 1]. The score and the
  selection are as the claim says: the median absolute deviation is zero in both
  series, the scores of the first are NaN for the four equal entries and plus infinity
  for the fifth, and exactly index 4 is selected; every score of the second is NaN and
  no index is selected. The statement that is to turn the selected indices into the
  bad antennas then indexes the antenna list with the index array and raises
  TypeError, for both series, so no antenna is recorded as bad and none as good; and
  a run on a store with five antennas ends before any score is computed, in the
  AttributeError of \<^verbatim>\<open>_initialize_metrics_dict\<close>.
\<close>

theorem modz_outliers_not_recorded:
  "modz [Fin 1, Fin 1, Fin 1, Fin 1, Fin 50] = [NaN, NaN, NaN, NaN, PInf]
 \<and> where_beyond 3 (modz [Fin 1, Fin 1, Fin 1, Fin 1, Fin 50]) = [4]
 \<and> list_getitem [0, 1, 2, 3, 4 :: int]
       (ArrayIndex (where_beyond 3 (modz [Fin 1, Fin 1, Fin 1, Fin 1, Fin 50]))) = Inl TypeError
 \<and> modz [Fin 1, Fin 1, Fin 1, Fin 1, Fin 1] = [NaN, NaN, NaN, NaN, NaN]
 \<and> where_beyond 3 (modz [Fin 1, Fin 1, Fin 1, Fin 1, Fin 1]) = []
 \<and> list_getitem [0, 1, 2, 3, 4 :: int]
       (ArrayIndex (where_beyond 3 (modz [Fin 1, Fin 1, Fin 1, Fin 1, Fin 1]))) = Inl TypeError
 \<and> run_metrics store_five 3 = Inl AttributeError"
  by (simp only: modz_ones modz_fifty beyond_none beyond_four run_metrics_store_five
        list_getitem_def pyindex.case simp_thms)

subsection \<open>The spectral transform of one slice\<close>

lemma fold_update_length:
  "length (fold (\<lambda>(c, v) acc. acc[c := v]) ps out) = length out"
  by (induction ps arbitrary: out) (auto split: prod.splits)

lemma fold_update_other:
  "c \<notin> fst ` set ps \<Longrightarrow> fold (\<lambda>(c, v) acc. acc[c := v]) ps out ! c = out ! c"
  by (induction ps arbitrary: out) (auto split: prod.splits)

lemma fold_update_hit:
  "distinct (map fst ps) \<Longrightarrow> (c, v) \<in> set ps \<Longrightarrow> c < length out \<Longrightarrow>
     fold (\<lambda>(c, v) acc. acc[c := v]) ps out ! c = v"
proof (induction ps arbitrary: out)
  case Nil
  then show ?case by simp
next
  case (Cons p ps)
  obtain c' v' where p: "p = (c', v')" by (cases p)
  show ?case
  proof (cases "(c, v) = p")
    case True
    then have "c \<notin> fst ` set ps" using Cons.prems(1) by (auto simp: p)
    then have "fold (\<lambda>(c, v) acc. acc[c := v]) ps (out[c := v]) ! c = out[c := v] ! c"
      by (rule fold_update_other)
    then show ?thesis using True Cons.prems(3) p by simp
  next
    case False
    then have m: "(c, v) \<in> set ps" using Cons.prems(2) by simp
    have d: "distinct (map fst ps)" using Cons.prems(1) by simp
    have l: "c < length (out[c' := v'])" using Cons.prems(3) by simp
    show ?thesis using Cons.IH [OF d m l] p by simp
  qed
qed

lemma put_length: "length (put inds vals out) = length out"
  unfolding put_def by (rule fold_update_length)

lemma put_other: "c \<notin> set inds \<Longrightarrow> put inds vals out ! c = out ! c"
  unfolding put_def by (rule fold_update_other) (auto dest: set_zip_leftD)

lemma put_hit:
  assumes "distinct inds" and "length vals = length inds" and "k < length inds"
    and "inds ! k < length out"
  shows "put inds vals out ! (inds ! k) = vals ! k"
proof -
  have d: "distinct (map fst (zip inds vals))" using assms(1,2) by simp
  have m: "(inds ! k, vals ! k) \<in> set (zip inds vals)"
    using assms(2,3) by (auto simp: set_zip)
  show ?thesis unfolding put_def using fold_update_hit [OF d m assms(4)] .
qed

lemma filter_upt_rank:
  assumes "c < n" and "P c"
  shows "filter P [0..<n] ! length (filter P [0..<c]) = c
       \<and> length (filter P [0..<c]) < length (filter P [0..<n])"
proof -
  have "[0..<n] = [0..<c] @ c # [Suc c..<n]"
    using assms(1) by (metis less_imp_le_nat upt_add_eq_append upt_conv_Cons le0 le_add_diff_inverse)
  then have "filter P [0..<n] = filter P [0..<c] @ c # filter P [Suc c..<n]"
    using assms(2) by simp
  then show ?thesis by (simp add: nth_append)
qed

lemma length_dft: "length (dft xs) = length xs"
  by (simp add: dft_def Let_def)

lemma length_fftshift: "length (fftshift xs) = length xs"
  by (simp add: fftshift_def Let_def)

lemma fft_slice_result:
  assumes "length data \<le> length window"
  shows "\<exists>out. fft_slice window data = Inr out \<and> length out = length data
       \<and> (\<forall>c<length data. out ! c =
             (case data ! c of
                None \<Rightarrow> None
              | Some _ \<Rightarrow> Some (fftshift (dft (windowed window data)) ! rank_nonan data c)))"
proof -
  let ?C = "length data"
  let ?idx = "filter (\<lambda>c. data ! c \<noteq> None) [0..<?C]"
  let ?nidx = "filter (\<lambda>c. data ! c = None) [0..<?C]"
  let ?vals = "map (\<lambda>c. the (data ! c) * complex_of_real (window ! c)) ?idx"
  have w: "windowed window data = ?vals" by (simp add: windowed_def)
  have noidx: "\<not> (\<exists>c\<in>set ?idx. length window \<le> c)" using assms by auto
  show ?thesis
  proof (cases "?idx = []")
    case True
    have r: "fft_slice window data = Inr (replicate ?C None)"
      using True by (simp add: fft_slice_def filter_nans_def np_fft_def)
    have "\<forall>c<?C. data ! c = None"
    proof (intro allI impI)
      fix c assume "c < ?C"
      then show "data ! c = None" using True by (auto simp: filter_empty_conv)
    qed
    then show ?thesis using r by simp
  next
    case False
    let ?sh = "fftshift (dft ?vals)"
    let ?in = "put ?idx (map Some ?sh) (replicate ?C (Some 0))"
    let ?out = "put ?nidx (replicate (length ?nidx) None) ?in"
    have r: "fft_slice window data = Inr ?out"
      using False noidx by (simp add: fft_slice_def filter_nans_def np_fft_def Let_def)
    have lsh: "length ?sh = length ?idx" by (simp add: length_fftshift length_dft)
    have lout: "length ?out = ?C" by (simp add: put_length)
    have pt: "?out ! c = (case data ! c of None \<Rightarrow> None
                | Some _ \<Rightarrow> Some (?sh ! rank_nonan data c))" if c: "c < ?C" for c
    proof (cases "data ! c")
      case None
      then have "?nidx ! length (filter (\<lambda>c. data ! c = None) [0..<c]) = c
           \<and> length (filter (\<lambda>c. data ! c = None) [0..<c]) < length ?nidx"
        using filter_upt_rank [of c ?C "\<lambda>c. data ! c = None"] c by simp
      then obtain k where k: "k < length ?nidx" "?nidx ! k = c" by blast
      have "?out ! (?nidx ! k) = replicate (length ?nidx) None ! k"
        by (rule put_hit) (use k c in \<open>simp_all add: put_length\<close>)
      then show ?thesis using k None by simp
    next
      case (Some v)
      then have nn: "data ! c \<noteq> None" by simp
      have "c \<notin> set ?nidx" using nn by simp
      then have o: "?out ! c = ?in ! c" by (rule put_other)
      have rk: "?idx ! rank_nonan data c = c" "rank_nonan data c < length ?idx"
        using filter_upt_rank [of c ?C "\<lambda>c. data ! c \<noteq> None"] c nn
        by (simp_all add: rank_nonan_def)
      have "?in ! (?idx ! rank_nonan data c) = map Some ?sh ! rank_nonan data c"
        by (rule put_hit) (use rk c lsh in simp_all)
      then have "?in ! c = Some (?sh ! rank_nonan data c)"
        using rk lsh by simp
      then show ?thesis using o Some by simp
    qed
    show ?thesis
    proof (intro exI conjI allI impI)
      show "fft_slice window data = Inr ?out" by (rule r)
      show "length ?out = ?C" by (rule lout)
      fix c assume "c < ?C"
      then show "?out ! c = (case data ! c of None \<Rightarrow> None
          | Some _ \<Rightarrow> Some (fftshift (dft (windowed window data)) ! rank_nonan data c))"
        unfolding w by (rule pt)
    qed
  qed
qed

lemma fft_slice_ok:
  assumes "length data \<le> length window"
  shows "\<exists>out. fft_slice window data = Inr out \<and> slice_ok window data out"
  unfolding slice_ok_def using fft_slice_result [OF assms] .

lemma fft_tile_result:
  assumes lw: "length rows \<le> length window" and l4: "\<forall>row\<in>set rows. length row = 4"
  shows "\<exists>out. fft_tile window rows = Inr out \<and> length out = length rows
       \<and> (\<forall>c<length rows. \<forall>j<4.
             \<exists>col_out. slice_ok window (map (\<lambda>row. row ! j) rows) col_out
                     \<and> out ! c ! j = col_out ! c)"
proof (cases rows)
  case Nil
  then show ?thesis by (simp add: fft_tile_def)
next
  case (Cons r rs)
  let ?col = "\<lambda>j. map (\<lambda>row. row ! j) rows"
  let ?f = "\<lambda>j. fft_slice window (?col j)"
  have npol: "(case rows of [] \<Rightarrow> 0 | r # _ \<Rightarrow> length r) = 4"
    using Cons l4 by simp
  have sl: "\<exists>out. ?f j = Inr out \<and> slice_ok window (?col j) out" for j
    by (rule fft_slice_ok) (use lw in simp)
  have "\<forall>j\<in>set [0..<4]. \<exists>y. ?f j = Inr y"
  proof
    fix j assume "j \<in> set [0..<4::nat]"
    from sl [of j] show "\<exists>y. ?f j = Inr y" by (elim exE conjE) (rule exI)
  qed
  then have "\<exists>cols. mapM ?f [0..<4] = Inr cols" by (rule mapM_total)
  then obtain cols where cols: "mapM ?f [0..<4] = Inr cols" by (elim exE)
  have cj: "?f j = Inr (cols ! j)" if "j < 4" for j
  proof -
    have "j < length [0..<4::nat]" using that by (simp only: length_upt diff_zero)
    from mapM_nth [OF cols this] have "?f ([0..<4] ! j) = Inr (cols ! j)" .
    moreover have "[0..<4] ! j = j" using that by (simp only: nth_upt add_0)
    ultimately show ?thesis by (simp only:)
  qed
  let ?out = "map (\<lambda>c. map (\<lambda>j. cols ! j ! c) [0..<4]) [0..<length rows]"
  have r: "fft_tile window rows = Inr ?out"
    by (simp only: fft_tile_def Let_def npol cols sum.case)
  show ?thesis
  proof (intro exI conjI allI impI)
    show "fft_tile window rows = Inr ?out" by (rule r)
    show "length ?out = length rows" by simp
    fix c j assume c: "c < length rows" and j: "j < (4::nat)"
    obtain res where res: "?f j = Inr res" "slice_ok window (?col j) res" using sl [of j] by blast
    have "res = cols ! j" using res(1) cj [OF j] by simp
    then show "slice_ok window (?col j) (cols ! j)" using res(2) by simp
    have "?out ! c = map (\<lambda>j. cols ! j ! c) [0..<4]"
      using c by (simp only: nth_map length_upt diff_zero nth_upt add_0)
    also have "\<dots> ! j = cols ! j ! c"
      using j by (simp only: nth_map length_upt diff_zero nth_upt add_0)
    finally show "?out ! c ! j = cols ! j ! c" .
  qed
qed


text \<open>
  Claim C6. With a frequency table as long as the channel axis and a window function
  that returns a window of the requested length, \<^verbatim>\<open>gains_fft\<close> returns an array, and
  for every timeblock, antenna and polarization the output slice along the channel
  axis is determined by the input slice alone: an originally NaN position holds NaN,
  and the \<open>k\<close>-th non-NaN position holds the \<open>k\<close>-th entry of the shifted discrete
  Fourier transform of the non-NaN entries, each multiplied by the window value of its
  own channel. A slice that is NaN throughout has no non-NaN position, so it is NaN
  throughout in the output; the ValueError of the transform of an empty sequence does
  not leave the method.
\<close>

theorem gains_fft_per_slice:
  assumes fa: "frequency_array self = Some fa"
    and w: "length (blackmanharris (length fa)) = length fa"
    and sh: "shape_ok (h ! gain_array self) nant nchan" and n: "length fa = nchan"
  shows "\<exists>out. gains_fft blackmanharris self h = Inr out
       \<and> length out = length (h ! gain_array self)
       \<and> (\<forall>t<length (h ! gain_array self). \<forall>i<nant. \<forall>c<nchan. \<forall>j<4.
            out ! t ! i ! c ! j =
              (case chan_slice (h ! gain_array self) t i j ! c of
                 None \<Rightarrow> None
               | Some _ \<Rightarrow>
                   Some (fftshift (dft (windowed (blackmanharris nchan)
                                          (chan_slice (h ! gain_array self) t i j)))
                         ! rank_nonan (chan_slice (h ! gain_array self) t i j) c)))"
proof -
  let ?g = "h ! gain_array self"
  let ?w = "blackmanharris nchan"
  have lw: "length ?w = nchan" using w n by simp
  have shp: "length rows = nchan \<and> (\<forall>row\<in>set rows. length row = 4)"
    if "gt \<in> set ?g" "rows \<in> set gt" for gt rows
    using sh that by (auto simp: shape_ok_def tile_shape_def)
  have "\<forall>gt\<in>set ?g. \<exists>y. mapM (fft_tile ?w) gt = Inr y"
  proof
    fix gt assume gt: "gt \<in> set ?g"
    have "\<forall>rows\<in>set gt. \<exists>y. fft_tile ?w rows = Inr y"
    proof
      fix rows assume rows: "rows \<in> set gt"
      have "length rows \<le> length ?w" "\<forall>row\<in>set rows. length row = 4"
        using shp [OF gt rows] lw by simp_all
      from fft_tile_result [OF this] show "\<exists>y. fft_tile ?w rows = Inr y"
        by (elim exE conjE) (rule exI)
    qed
    then show "\<exists>y. mapM (fft_tile ?w) gt = Inr y" by (rule mapM_total)
  qed
  then have "\<exists>out. mapM (\<lambda>gt. mapM (fft_tile ?w) gt) ?g = Inr out"
    by (rule mapM_total)
  then obtain out where out: "mapM (\<lambda>gt. mapM (fft_tile ?w) gt) ?g = Inr out"
    by (elim exE)
  have r: "gains_fft blackmanharris self h = Inr out"
    using out fa n by (simp add: gains_fft_def getattr_def)
  show ?thesis
  proof (intro exI conjI allI impI)
    show "gains_fft blackmanharris self h = Inr out" by (rule r)
    show "length out = length ?g" using out by (rule mapM_length)
    fix t i c j
    assume t: "t < length ?g" and i: "i < nant" and c: "c < nchan" and j: "j < (4::nat)"
    have gt: "?g ! t \<in> set ?g" using t by simp
    have li: "length (?g ! t) = nant" using sh gt by (simp add: shape_ok_def)
    then have rows: "?g ! t ! i \<in> set (?g ! t)" using i by simp
    have lc: "length (?g ! t ! i) = nchan" "\<forall>row\<in>set (?g ! t ! i). length row = 4"
      using shp [OF gt rows] by simp_all
    have 1: "mapM (fft_tile ?w) (?g ! t) = Inr (out ! t)"
      using mapM_nth [OF out t] .
    have 2: "fft_tile ?w (?g ! t ! i) = Inr (out ! t ! i)"
      using mapM_nth [OF 1] i li by simp
    have le: "length (?g ! t ! i) \<le> length ?w" using lc(1) lw by simp
    obtain res where res: "fft_tile ?w (?g ! t ! i) = Inr res"
      and oc: "\<forall>c<length (?g ! t ! i). \<forall>j<4.
             \<exists>col_out. slice_ok ?w (map (\<lambda>row. row ! j) (?g ! t ! i)) col_out
                     \<and> res ! c ! j = col_out ! c"
      using fft_tile_result [OF le lc(2)] by blast
    have oo: "res = out ! t ! i" using res 2 by simp
    obtain col_out where co: "slice_ok ?w (chan_slice ?g t i j) col_out"
      "out ! t ! i ! c ! j = col_out ! c"
      using oc c j lc(1) oo unfolding chan_slice_def by blast
    have cl: "c < length (chan_slice ?g t i j)" using c lc(1) by (simp add: chan_slice_def)
    show "out ! t ! i ! c ! j =
              (case chan_slice ?g t i j ! c of
                 None \<Rightarrow> None
               | Some _ \<Rightarrow>
                   Some (fftshift (dft (windowed ?w (chan_slice ?g t i j)))
                         ! rank_nonan (chan_slice ?g t i j) c))"
      using co(1) cl unfolding slice_ok_def co(2) by blast
  qed
qed

lemma cis_minus_pi: "cis (- pi) = - 1"
  by (simp add: complex_eq_iff)

theorem gains_fft_per_slice_witness:
  "\<exists>out. gains_fft boxcar store_fft heap_fft = Inr out
      \<and> out ! 0 ! 0 ! 0 ! 0 = None \<and> out ! 0 ! 0 ! 1 ! 0 = Some 2
      \<and> out ! 0 ! 0 ! 0 ! 2 = Some (- 2) \<and> out ! 0 ! 0 ! 1 ! 2 = Some 4
      \<and> out ! 0 ! 0 ! 0 ! 3 = None \<and> out ! 0 ! 0 ! 1 ! 3 = None"
proof -
  have fa: "frequency_array store_fft = Some [150, 151]" by (simp add: store_fft_def)
  have w: "length (boxcar (length [150, 151 :: real])) = length [150, 151 :: real]"
    by (simp add: boxcar_def)
  have sh: "shape_ok (heap_fft ! gain_array store_fft) 1 2"
    by (simp add: shape_ok_def tile_shape_def heap_fft_def store_fft_def)
  have n: "length [150, 151 :: real] = 2" by simp
  obtain out where r: "gains_fft boxcar store_fft heap_fft = Inr out"
    and pt: "\<forall>t<length (heap_fft ! gain_array store_fft). \<forall>i<1. \<forall>c<2. \<forall>j<4.
            out ! t ! i ! c ! j =
              (case chan_slice (heap_fft ! gain_array store_fft) t i j ! c of
                 None \<Rightarrow> None
               | Some _ \<Rightarrow>
                   Some (fftshift (dft (windowed (boxcar 2)
                                          (chan_slice (heap_fft ! gain_array store_fft) t i j)))
                         ! rank_nonan (chan_slice (heap_fft ! gain_array store_fft) t i j) c))"
    using gains_fft_per_slice [of store_fft "[150, 151]" boxcar heap_fft 1 2, OF fa w sh n]
    by (elim exE conjE)
  have t: "0 < length (heap_fft ! gain_array store_fft)"
    by (simp add: heap_fft_def store_fft_def)
  have c0: "chan_slice (heap_fft ! gain_array store_fft) 0 0 0 = [None, Some 2]"
    and c2: "chan_slice (heap_fft ! gain_array store_fft) 0 0 2 = [Some 1, Some 3]"
    and c3: "chan_slice (heap_fft ! gain_array store_fft) 0 0 3 = [None, None]"
    by (simp_all add: chan_slice_def heap_fft_def store_fft_def)
  have v0: "fftshift (dft (windowed (boxcar 2) [None, Some 2])) ! rank_nonan [None, Some 2] (Suc 0) = 2"
    by (simp add: fftshift_def dft_def windowed_def boxcar_def rank_nonan_def upt_rec numeral_2_eq_2)
  have v2: "fftshift (dft (windowed (boxcar 2) [Some 1, Some 3])) = [- 2, 4]"
    by (simp add: fftshift_def dft_def windowed_def boxcar_def upt_rec numeral_2_eq_2 cis_minus_pi)
  have k: "rank_nonan [Some 1, Some 3] 0 = 0" "rank_nonan [Some 1, Some 3] (Suc 0) = 1"
    by (simp_all add: rank_nonan_def)
  have i: "(0::nat) < 1" and cc: "(0::nat) < 2" "(1::nat) < 2"
    and jj: "(0::nat) < 4" "(2::nat) < 4" "(3::nat) < 4" by simp_all
  have "out ! 0 ! 0 ! 0 ! 0 = None"
    using pt [rule_format, OF t i cc(1) jj(1)] by (simp add: c0)
  moreover have "out ! 0 ! 0 ! 1 ! 0 = Some 2"
    using pt [rule_format, OF t i cc(2) jj(1)] by (simp add: c0 v0)
  moreover have "out ! 0 ! 0 ! 0 ! 2 = Some (- 2)"
    using pt [rule_format, OF t i cc(1) jj(2)] by (simp add: c2 v2 k)
  moreover have "out ! 0 ! 0 ! 1 ! 2 = Some 4"
    using pt [rule_format, OF t i cc(2) jj(2)] by (simp add: c2 v2 k)
  moreover have "out ! 0 ! 0 ! 0 ! 3 = None"
    using pt [rule_format, OF t i cc(1) jj(3)] by (simp add: c3)
  moreover have "out ! 0 ! 0 ! 1 ! 3 = None"
    using pt [rule_format, OF t i cc(2) jj(3)] by (simp add: c3)
  ultimately show ?thesis using r by blast
qed

subsection \<open>The global bad-antenna entry\<close>

lemma bad_ants_entry_from_xx: "bad_ants_entry xx yy = np_unique (BAD_ANTS xx)"
  by (simp add: bad_ants_entry_def np_unique_def remdups_append)


subsection \<open>Skewness over short baselines\<close>























end
